theory Spec2Isabelle
  imports Complex_Main "HOL-Library.Multiset" "HOL-Library.Log_Nat"
    "HOL-Library.Char_ord" "HOL-Library.List_Lexorder" "HOL-Library.Product_Lexorder"
begin

section \<open>Strings\<close>

text \<open>
  Text is a list of 8-bit characters read as the code points 0..255 of a Python
  \<^verbatim>\<open>str\<close>; code points above 255 are outside the model.
  \<^verbatim>\<open>str.isspace\<close>, the class \<^verbatim>\<open>\s\<close> of \<^verbatim>\<open>re\<close>,
  \<^verbatim>\<open>str.strip()\<close> and \<^verbatim>\<open>str.split()\<close> all use the same
  whitespace set, which on this range is 9..13, 28..32, 133 and 160.
\<close>

definition isspace :: "char \<Rightarrow> bool" where
  "isspace c =
     (let n = (of_char c :: nat)
      in (9 \<le> n \<and> n \<le> 13) \<or> (28 \<le> n \<and> n \<le> 32) \<or> n = 133 \<or> n = 160)"

definition is_crlf_tab :: "char \<Rightarrow> bool" where
  \<comment> \<open>the character class \<^verbatim>\<open>[\r\n\t]\<close>\<close>
  "is_crlf_tab c = (c = CHR 0x0D \<or> c = CHR 0x0A \<or> c = CHR 0x09)"

definition replace_nul :: "string \<Rightarrow> string" where
  \<comment> \<open>\<^verbatim>\<open>text.replace("\x00", " ")\<close>\<close>
  "replace_nul s = map (\<lambda>c. if c = CHR 0x00 then CHR '' '' else c) s"

fun sub_runs :: "(char \<Rightarrow> bool) \<Rightarrow> bool \<Rightarrow> string \<Rightarrow> string" where
  \<comment> \<open>\<^verbatim>\<open>re.sub(r"[...]+", " ", s)\<close>: every maximal run of characters of the
      class becomes one space; the flag says that the previous character was in a run.\<close>
  "sub_runs P prev [] = []"
| "sub_runs P prev (c # cs) =
     (if P c then (if prev then sub_runs P True cs else CHR '' '' # sub_runs P True cs)
      else c # sub_runs P False cs)"

definition strip :: "string \<Rightarrow> string" where
  "strip s = rev (dropWhile isspace (rev (dropWhile isspace s)))"

definition clean_text :: "string \<Rightarrow> string" where
  "clean_text text =
     strip (sub_runs isspace False (sub_runs is_crlf_tab False (replace_nul text)))"

text \<open>The shape of a normalized text: every whitespace character is a space, no NUL,
  no two whitespace characters in a row, none at either end.\<close>

definition normalized :: "string \<Rightarrow> bool" where
  "normalized s =
     (CHR 0x00 \<notin> set s \<and> (\<forall>c \<in> set s. isspace c \<longrightarrow> c = CHR '' '') \<and>
      successively (\<lambda>a b. \<not> (isspace a \<and> isspace b)) s \<and>
      (s \<noteq> [] \<longrightarrow> \<not> isspace (hd s) \<and> \<not> isspace (last s)))"

definition upper_char :: "char \<Rightarrow> string" where
  \<comment> \<open>\<^verbatim>\<open>str.upper\<close> on one code point below 256; U+00DF becomes SS. The capitals of
      U+00B5 and U+00FF lie above 255 and are not represented: both stay as they are.\<close>
  "upper_char c =
     (let n = (of_char c :: nat)
      in if (97 \<le> n \<and> n \<le> 122) \<or> (224 \<le> n \<and> n \<le> 254 \<and> n \<noteq> 247)
         then [char_of (n - 32)]
         else if n = 223 then ''SS'' else [c])"

definition upper :: "string \<Rightarrow> string" where
  "upper s = concat (map upper_char s)"

definition lower_char :: "char \<Rightarrow> char" where
  "lower_char c =
     (let n = (of_char c :: nat)
      in if (65 \<le> n \<and> n \<le> 90) \<or> (192 \<le> n \<and> n \<le> 222 \<and> n \<noteq> 215)
         then char_of (n + 32) else c)"

definition lower :: "string \<Rightarrow> string" where
  "lower s = map lower_char s"

fun split_from :: "string \<Rightarrow> string \<Rightarrow> string list" where
  \<comment> \<open>\<^verbatim>\<open>str.split()\<close>: the first argument is the word read so far.\<close>
  "split_from cur [] = (if cur = [] then [] else [cur])"
| "split_from cur (c # cs) =
     (if isspace c then (if cur = [] then split_from [] cs else cur # split_from [] cs)
      else split_from (cur @ [c]) cs)"

definition split :: "string \<Rightarrow> string list" where
  "split s = split_from [] s"

definition tokenize :: "string \<Rightarrow> string list" where
  \<comment> \<open>\<^verbatim>\<open>_tokenize\<close>\<close>
  "tokenize text = filter (\<lambda>token. token \<noteq> []) (split (lower (clean_text text)))"

section \<open>Numbers\<close>

text \<open>
  A Python \<^verbatim>\<open>float\<close> is a double; it is modelled by the real number it stands for,
  and every arithmetic operation of the source rounds its exact result to the nearest
  double, ties to even (\<open>fl\<close>). Infinities and NaN are not represented: \<open>fl\<close> is the
  IEEE rounding for magnitudes below \<open>2 ^ 1024\<close>.
\<close>

definition round_half_even :: "real \<Rightarrow> int" where
  "round_half_even x =
     (let f = \<lfloor>x\<rfloor>; d = x - of_int f
      in if d < 1 / 2 then f else if 1 / 2 < d then f + 1 else if even f then f else f + 1)"

definition pow2 :: "int \<Rightarrow> real" where
  "pow2 e = (if 0 \<le> e then 2 ^ nat e else 1 / 2 ^ nat (- e))"

definition float_exponent :: "real \<Rightarrow> int" where
  \<comment> \<open>for \<open>0 < a\<close>: the \<open>e\<close> with \<open>2 ^ e \<le> a < 2 ^ (e + 1)\<close>\<close>
  "float_exponent a = (if 1 \<le> a then bitlen \<lfloor>a\<rfloor> - 1 else - bitlen (\<lceil>1 / a\<rceil> - 1))"

definition fl :: "real \<Rightarrow> real" where
  "fl x =
     (if x = 0 then 0
      else let a = \<bar>x\<bar>; e = max (float_exponent a) (- 1022); q = pow2 (e - 52)
           in sgn x * (of_int (round_half_even (a / q)) * q))"

definition py_round :: "real \<Rightarrow> nat \<Rightarrow> real" where
  \<comment> \<open>\<^verbatim>\<open>round(x, ndigits)\<close> on a float: the exact value of \<open>x\<close> is rounded to
      \<open>ndigits\<close> decimals, ties to even, and the decimal is read back as a double.\<close>
  "py_round x ndigits = fl (of_int (round_half_even (x * 10 ^ ndigits)) / 10 ^ ndigits)"

section \<open>Counter\<close>

text \<open>A \<^verbatim>\<open>collections.Counter\<close> is a dict: its items are kept in the order in
  which the keys were first inserted.\<close>

fun counter_add :: "'a \<Rightarrow> ('a \<times> nat) list \<Rightarrow> ('a \<times> nat) list" where
  "counter_add x [] = [(x, 1)]"
| "counter_add x ((y, n) # ys) = (if x = y then (y, n + 1) # ys else (y, n) # counter_add x ys)"

definition Counter :: "'a list \<Rightarrow> ('a \<times> nat) list" where
  "Counter xs = foldl (\<lambda>acc x. counter_add x acc) [] xs"

definition most_common :: "nat \<Rightarrow> ('a \<times> nat) list \<Rightarrow> ('a \<times> nat) list" where
  \<comment> \<open>\<^verbatim>\<open>Counter.most_common(n)\<close>: the items sorted by count, largest first, by a
      stable sort, cut after \<open>n\<close>.\<close>
  "most_common n c = take n (sort_key (\<lambda>item. - int (snd item)) c)"

section \<open>Tables, scores and library calls\<close>

text \<open>
  What a call raises. \<open>Raised msg\<close> is an instance of \<^verbatim>\<open>Exception\<close> whose
  \<^verbatim>\<open>str(e)\<close> is \<open>msg\<close>. \<open>Interrupted msg\<close> is any other instance of
  \<^verbatim>\<open>BaseException\<close> (\<^verbatim>\<open>KeyboardInterrupt\<close>, \<^verbatim>\<open>SystemExit\<close>,
  \<^verbatim>\<open>GeneratorExit\<close>): a handler \<^verbatim>\<open>except Exception\<close> does not catch it.
\<close>

datatype error = Raised string | Interrupted string

datatype cell = Null | Str string | Num real

text \<open>
  A column of a DataFrame carries its dtype. \<open>TextT\<close> stands for the dtypes that
  \<^verbatim>\<open>pandas.api.types.is_string_dtype\<close> accepts, \<open>NumericT\<close> for those that
  \<^verbatim>\<open>select_dtypes(include=[np.number])\<close> selects, \<open>ObjectT\<close> for all others.
  A row holds one cell per column; a missing cell reads as \<open>Null\<close>.
\<close>

datatype dtype = TextT | NumericT | ObjectT

record dataframe =
  columns :: "(string \<times> dtype) list"
  rows :: "cell list list"

datatype pyval = PyStr string | PyNum real | PyNone

type_synonym score = "string \<rightharpoonup> pyval"

text \<open>The sentiment model is any callable: on a list of texts it returns a list of
  score dicts or raises.\<close>

type_synonym scorer = "string list \<Rightarrow> error + score list"

text \<open>
  What the source calls in Python's and scikit-learn's libraries is a parameter:
  \<^item> \<open>fmt_float spec x\<close> and \<open>fmt_int spec n\<close> are \<^verbatim>\<open>format(x, spec)\<close>; the
    empty spec is \<^verbatim>\<open>str(x)\<close>;
  \<^item> \<open>fit_predict texts labels\<close> is lines 155 to 164 of
    \<^verbatim>\<open>analytics_engine.py\<close>: TF-IDF features, the stratified 80/20 split with
    seed 42, the logistic regression and its predictions; it returns
    \<open>(y_test, preds)\<close> or raises;
  \<^item> the four metrics of \<^verbatim>\<open>sklearn.metrics\<close>, the last three called with
    \<^verbatim>\<open>zero_division=0\<close>;
  \<^item> \<open>float_pow x k\<close> is \<^verbatim>\<open>x ** k\<close> on a float, the \<^verbatim>\<open>pow\<close> of the C
    library, which need not be the double nearest to the exact power.
\<close>

record lib =
  fmt_float :: "string \<Rightarrow> real \<Rightarrow> string"
  fmt_int :: "string \<Rightarrow> int \<Rightarrow> string"
  fit_predict :: "string list \<Rightarrow> nat list \<Rightarrow> error + nat list \<times> nat list"
  accuracy_score :: "nat list \<Rightarrow> nat list \<Rightarrow> error + real"
  precision_score :: "nat list \<Rightarrow> nat list \<Rightarrow> error + real"
  recall_score :: "nat list \<Rightarrow> nat list \<Rightarrow> error + real"
  f1_score :: "nat list \<Rightarrow> nat list \<Rightarrow> error + real"
  float_pow :: "real \<Rightarrow> nat \<Rightarrow> real"

definition py_str :: "lib \<Rightarrow> pyval \<Rightarrow> string" where
  "py_str lib v = (case v of PyStr s \<Rightarrow> s | PyNum x \<Rightarrow> fmt_float lib [] x | PyNone \<Rightarrow> ''None'')"

definition index_of :: "'a \<Rightarrow> 'a list \<Rightarrow> nat" where
  "index_of x xs = length (takeWhile (\<lambda>y. y \<noteq> x) xs)"

definition cell_at :: "cell list \<Rightarrow> nat \<Rightarrow> cell" where
  "cell_at r j = (if j < length r then r ! j else Null)"

definition as_text :: "lib \<Rightarrow> cell \<Rightarrow> string" where
  \<comment> \<open>one cell under \<^verbatim>\<open>.fillna("").astype(str)\<close>\<close>
  "as_text lib c = (case c of Null \<Rightarrow> [] | Str s \<Rightarrow> s | Num x \<Rightarrow> fmt_float lib [] x)"

definition distinct_names :: "dataframe \<Rightarrow> bool" where
  \<comment> \<open>no two columns of one name: under a repeated name \<^verbatim>\<open>df[name]\<close> is a frame, not
      a column, and the model, which reads a name at its first position, does not apply\<close>
  "distinct_names df = distinct (map fst (columns df))"

definition column_texts :: "lib \<Rightarrow> dataframe \<Rightarrow> string \<Rightarrow> string list" where
  \<comment> \<open>\<^verbatim>\<open>df[text_column].fillna("").astype(str).tolist()\<close>\<close>
  "column_texts lib df name =
     map (\<lambda>r. as_text lib (cell_at r (index_of name (map fst (columns df))))) (rows df)"

section \<open>The table cleaner\<close>

definition normalize_value :: "cell \<Rightarrow> cell" where
  \<comment> \<open>\<^verbatim>\<open>_normalize_value\<close>\<close>
  "normalize_value v = (case v of Str s \<Rightarrow> Str (clean_text s) | _ \<Rightarrow> v)"

definition dropna_all :: "cell list list \<Rightarrow> cell list list" where
  \<comment> \<open>\<^verbatim>\<open>dropna(how="all")\<close>\<close>
  "dropna_all rs = filter (\<lambda>r. \<not> list_all (\<lambda>c. c = Null) r) rs"

fun drop_duplicates_from :: "'a list \<Rightarrow> 'a list \<Rightarrow> 'a list" where
  \<comment> \<open>the first argument holds the rows seen so far\<close>
  "drop_duplicates_from seen [] = []"
| "drop_duplicates_from seen (r # rs) =
     (if r \<in> set seen then drop_duplicates_from seen rs
      else r # drop_duplicates_from (r # seen) rs)"

definition drop_duplicates :: "'a list \<Rightarrow> 'a list" where
  \<comment> \<open>\<^verbatim>\<open>drop_duplicates()\<close>: keep = "first"\<close>
  "drop_duplicates rs = drop_duplicates_from [] rs"

definition clean_dataframe :: "dataframe \<Rightarrow> dataframe" where
  "clean_dataframe df =
     df\<lparr>rows := map (map normalize_value) (drop_duplicates (dropna_all (rows df)))\<rparr>"

section \<open>The analytics stages\<close>

definition find_text_column :: "dataframe \<Rightarrow> string option" where
  \<comment> \<open>\<^verbatim>\<open>_find_text_column\<close>\<close>
  "find_text_column df = map_option fst (find (\<lambda>c. snd c = TextT) (columns df))"

definition truthy :: "string option \<Rightarrow> string option" where
  \<comment> \<open>\<^verbatim>\<open>if text_column:\<close> is false for \<^verbatim>\<open>None\<close> and for the empty name\<close>
  "truthy name = (case name of None \<Rightarrow> None | Some c \<Rightarrow> if c = [] then None else Some c)"

definition sentiment_label :: "lib \<Rightarrow> score \<Rightarrow> string" where
  \<comment> \<open>\<^verbatim>\<open>_sentiment_label\<close>\<close>
  "sentiment_label lib score =
     (let label = (case score ''label'' of None \<Rightarrow> PyStr ''NEUTRAL'' | Some v \<Rightarrow> v)
      in upper (py_str lib label))"

record eda =
  total_records :: nat
  average_text_length :: nat
  sentiment_distribution :: "(string \<times> nat) list"
  word_frequency :: "(string \<times> nat) list"

definition perform_eda :: "lib \<Rightarrow> dataframe \<Rightarrow> scorer \<Rightarrow> error + eda" where
  "perform_eda lib df model =
     (let records = length (rows df) in
      case truthy (find_text_column df) of
        None \<Rightarrow>
          Inr \<lparr>total_records = records, average_text_length = 0,
               sentiment_distribution = [], word_frequency = []\<rparr>
      | Some text_column \<Rightarrow>
          (let texts = column_texts lib df text_column;
               lengths = map (\<lambda>text. length (clean_text text)) (filter (\<lambda>text. text \<noteq> []) texts);
               avg_length = (if lengths = [] then 0 else sum_list lengths div length lengths);
               tokens = concat (map tokenize (take 500 texts));
               word_freq = most_common 15 (Counter tokens)
           in if texts = [] then
                Inr \<lparr>total_records = records, average_text_length = avg_length,
                     sentiment_distribution = [], word_frequency = word_freq\<rparr>
              else
                (case model (take 200 texts) of
                   Inl e \<Rightarrow> Inl e
                 | Inr scores \<Rightarrow>
                     Inr \<lparr>total_records = records, average_text_length = avg_length,
                          sentiment_distribution = Counter (map (sentiment_label lib) scores),
                          word_frequency = word_freq\<rparr>)))"

text \<open>
  \<^verbatim>\<open>df.describe(include="all")\<close> raises on a frame without columns. The summary
  it returns otherwise is read by no other stage and by no part of the report, and is
  left out of the stage's result.
\<close>

definition describe :: "dataframe \<Rightarrow> error + unit" where
  "describe df =
     (if columns df = [] then Inl (Raised ''Cannot describe a DataFrame without columns'')
      else Inr ())"

record descriptive =
  positive_percentage :: real
  negative_percentage :: real

definition descriptive_analytics :: "lib \<Rightarrow> dataframe \<Rightarrow> scorer \<Rightarrow> error + descriptive" where
  "descriptive_analytics lib df model =
     (case describe df of
        Inl e \<Rightarrow> Inl e
      | Inr _ \<Rightarrow>
          (case truthy (find_text_column df) of
             None \<Rightarrow>
               Inr \<lparr>positive_percentage = py_round (fl (0 * 100)) 2,
                    negative_percentage = py_round (fl (0 * 100)) 2\<rparr>
           | Some text_column \<Rightarrow>
               (case model (take 200 (column_texts lib df text_column)) of
                  Inl e \<Rightarrow> Inl e
                | Inr scores \<Rightarrow>
                    (let labels = map (sentiment_label lib) scores;
                         total = (if length labels = 0 then 1 else length labels);
                         positive_pct = fl (real (count_list labels ''POSITIVE'') / real total);
                         negative_pct = fl (real (count_list labels ''NEGATIVE'') / real total)
                     in Inr \<lparr>positive_percentage = py_round (fl (positive_pct * 100)) 2,
                             negative_percentage = py_round (fl (negative_pct * 100)) 2\<rparr>))))"

text \<open>
  \<^verbatim>\<open>DataFrame.corr()\<close> is Pearson's coefficient over the rows in which both cells
  hold a number, and NaN (here \<open>None\<close>) when the product of the two sums of squared
  deviations is zero: fewer than two such rows, or a column that is constant on them.
  pandas computes it in double arithmetic; the model takes its exact value.
\<close>

definition mean :: "real list \<Rightarrow> real" where
  "mean xs = sum_list xs / real (length xs)"

definition pearson :: "(real \<times> real) list \<Rightarrow> real option" where
  "pearson obs =
     (let mx = mean (map fst obs); my = mean (map snd obs);
          sxy = sum_list (map (\<lambda>(x, y). (x - mx) * (y - my)) obs);
          sxx = sum_list (map (\<lambda>(x, y). (x - mx) ^ 2) obs);
          syy = sum_list (map (\<lambda>(x, y). (y - my) ^ 2) obs)
      in if sxx * syy = 0 then None else Some (sxy / sqrt (sxx * syy)))"

text \<open>A square root of a real number is not computed by rewriting: \<open>pearson\<close> is
  evaluated from its definition where a value is needed.\<close>

declare pearson_def [code del]

definition num_of :: "cell \<Rightarrow> real option" where
  "num_of c = (case c of Num x \<Rightarrow> Some x | _ \<Rightarrow> None)"

definition complete_obs :: "real option list \<Rightarrow> real option list \<Rightarrow> (real \<times> real) list" where
  "complete_obs xs ys =
     List.map_filter (\<lambda>(a, b). case a of None \<Rightarrow> None
                                 | Some x \<Rightarrow> (case b of None \<Rightarrow> None | Some y \<Rightarrow> Some (x, y)))
       (zip xs ys)"

definition corr :: "real option list \<Rightarrow> real option list \<Rightarrow> real" where
  \<comment> \<open>one entry of \<^verbatim>\<open>numeric_df.corr().fillna(0)\<close>\<close>
  "corr xs ys = (case pearson (complete_obs xs ys) of None \<Rightarrow> 0 | Some r \<Rightarrow> r)"

definition numeric_columns :: "dataframe \<Rightarrow> (string \<times> real option list) list" where
  \<comment> \<open>\<^verbatim>\<open>df.select_dtypes(include=[np.number])\<close>, column by column\<close>
  "numeric_columns df =
     map (\<lambda>(j, name, t). (name, map (\<lambda>r. num_of (cell_at r j)) (rows df)))
       (filter (\<lambda>(j, name, t). t = NumericT) (enumerate 0 (columns df)))"

fun column_pairs :: "'a list \<Rightarrow> ('a \<times> 'a) list" where
  \<comment> \<open>\<^verbatim>\<open>for i, col_a in enumerate(columns): for col_b in columns[i + 1:]\<close>\<close>
  "column_pairs [] = []"
| "column_pairs (a # bs) = map (Pair a) bs @ column_pairs bs"

definition correlation_pairs ::
  "(string \<times> real option list) list \<Rightarrow> (real \<times> string \<times> string \<times> real) list" where
  "correlation_pairs cols =
     map (\<lambda>((col_a, xs), (col_b, ys)).
            let corr_val = corr xs ys in (\<bar>corr_val\<bar>, col_a, col_b, corr_val))
       (column_pairs cols)"

definition sorted_reverse :: "'a::linorder list \<Rightarrow> 'a list" where
  \<comment> \<open>\<^verbatim>\<open>sorted(pairs, reverse=True)\<close>: tuples that compare equal are equal, so
      the order among them cannot be seen\<close>
  "sorted_reverse xs = rev (sort xs)"

definition correlation_insights_of :: "dataframe \<Rightarrow> (string \<times> real) list" where
  "correlation_insights_of df =
     (let numeric_df = numeric_columns df in
      if 2 \<le> length numeric_df then
        map (\<lambda>(_, col_a, col_b, corr_val). (col_a @ '' vs '' @ col_b, py_round corr_val 3))
          (take 5 (sorted_reverse (correlation_pairs numeric_df)))
      else [])"

record diagnostic =
  negative_keywords :: "(string \<times> nat) list"
  correlation_insights :: "(string \<times> real) list"

definition diagnostic_analytics :: "lib \<Rightarrow> dataframe \<Rightarrow> scorer \<Rightarrow> error + diagnostic" where
  "diagnostic_analytics lib df model =
     (case truthy (find_text_column df) of
        None \<Rightarrow>
          Inr \<lparr>negative_keywords = [], correlation_insights = correlation_insights_of df\<rparr>
      | Some text_column \<Rightarrow>
          (let texts = column_texts lib df text_column in
           case model (take 200 texts) of
             Inl e \<Rightarrow> Inl e
           | Inr scores \<Rightarrow>
               (let negative_texts =
                      map fst (filter (\<lambda>(text, score). sentiment_label lib score = ''NEGATIVE'')
                                 (zip texts scores));
                    tokens = concat (map tokenize negative_texts)
                in Inr \<lparr>negative_keywords = most_common 10 (Counter tokens),
                        correlation_insights = correlation_insights_of df\<rparr>)))"

datatype predictive = Trained real real real real | Skipped string
  \<comment> \<open>\<^verbatim>\<open>{"status": "trained", "accuracy", "precision", "recall", "f1_score"}\<close> or
      \<^verbatim>\<open>{"status": "skipped", "reason"}\<close>\<close>

fun status :: "predictive \<Rightarrow> string" where
  "status (Trained acc prec rec f1) = ''trained''"
| "status (Skipped why) = ''skipped''"

fun reason :: "predictive \<Rightarrow> string option" where
  "reason (Trained acc prec rec f1) = None"
| "reason (Skipped why) = Some why"

definition binarize :: "lib \<Rightarrow> score list \<Rightarrow> nat list" where
  \<comment> \<open>\<^verbatim>\<open>[1 if _sentiment_label(score) == "POSITIVE" else 0 for score in scores]\<close>\<close>
  "binarize lib scores =
     map (\<lambda>score. if sentiment_label lib score = ''POSITIVE'' then 1 else 0) scores"

definition train :: "lib \<Rightarrow> scorer \<Rightarrow> string list \<Rightarrow> error + predictive" where
  \<comment> \<open>the body of the \<^verbatim>\<open>try\<close> block of \<^verbatim>\<open>predictive_analytics\<close>\<close>
  "train lib model texts =
     (case model (take 500 texts) of
        Inl e \<Rightarrow> Inl e
      | Inr scores \<Rightarrow>
          (let labels = binarize lib scores in
           if length (remdups labels) < 2 then
             Inr (Skipped
               ''All texts have the same sentiment; model training requires mixed sentiment data.'')
           else
             (case fit_predict lib (take (length labels) texts) labels of
                Inl e \<Rightarrow> Inl e
              | Inr (y_test, preds) \<Rightarrow>
                  (case accuracy_score lib y_test preds of
                     Inl e \<Rightarrow> Inl e
                   | Inr acc \<Rightarrow>
                       (case precision_score lib y_test preds of
                          Inl e \<Rightarrow> Inl e
                        | Inr prec \<Rightarrow>
                            (case recall_score lib y_test preds of
                               Inl e \<Rightarrow> Inl e
                             | Inr rec \<Rightarrow>
                                 (case f1_score lib y_test preds of
                                    Inl e \<Rightarrow> Inl e
                                  | Inr f1 \<Rightarrow>
                                      Inr (Trained (py_round acc 3) (py_round prec 3)
                                             (py_round rec 3) (py_round f1 3)))))))))"

definition predictive_analytics :: "lib \<Rightarrow> dataframe \<Rightarrow> scorer \<Rightarrow> error + predictive" where
  \<comment> \<open>\<^verbatim>\<open>except Exception as e\<close> handles \<open>Raised\<close> and lets \<open>Interrupted\<close> pass\<close>
  "predictive_analytics lib df model =
     (case truthy (find_text_column df) of
        None \<Rightarrow> Inr (Skipped ''No text column available for model training.'')
      | Some text_column \<Rightarrow>
          (let texts = column_texts lib df text_column in
           if length texts < 10 then Inr (Skipped ''Not enough text records for training.'')
           else
             (case train lib model texts of
                Inl (Raised msg) \<Rightarrow> Inr (Skipped (''Model training failed: '' @ msg))
              | Inl (Interrupted msg) \<Rightarrow> Inl (Interrupted msg)
              | Inr result \<Rightarrow> Inr result)))"

section \<open>Narratives and the report\<close>

definition prescriptive_analytics :: "(string \<rightharpoonup> descriptive) \<Rightarrow> string" where
  "prescriptive_analytics summary =
     (let positive_pct = (case summary ''descriptive_analytics'' of
                            None \<Rightarrow> 0 | Some d \<Rightarrow> positive_percentage d);
          negative_pct = (case summary ''descriptive_analytics'' of
                            None \<Rightarrow> 0 | Some d \<Rightarrow> negative_percentage d)
      in if 50 < negative_pct then
           ''High negative sentiment detected. Prioritize customer feedback loops and rapid remediation.''
         else if 70 < positive_pct then
           ''Strong positive sentiment. Scale current messaging and reinforce top-performing channels.''
         else
           ''Sentiment is mixed. Focus on improving consistency and monitoring key drivers weekly.'')"

text \<open>The \<^verbatim>\<open>data\<close> dict of \<^verbatim>\<open>_generate_narrative\<close>: the keys it reads, each
  present or absent.\<close>

record narrative_data =
  d_total_records :: "nat option"
  d_positive_percentage :: "real option"
  d_negative_percentage :: "real option"
  d_negative_keywords :: "(string \<times> nat) list option"
  d_correlation_insights :: "(string \<times> real) list option"
  d_status :: "string option"
  d_accuracy :: "real option"
  d_f1_score :: "real option"

definition no_data :: narrative_data where
  "no_data =
     \<lparr>d_total_records = None, d_positive_percentage = None, d_negative_percentage = None,
      d_negative_keywords = None, d_correlation_insights = None, d_status = None,
      d_accuracy = None, d_f1_score = None\<rparr>"

definition descriptive_data :: "descriptive \<Rightarrow> narrative_data" where
  "descriptive_data d =
     no_data\<lparr>d_positive_percentage := Some (positive_percentage d),
             d_negative_percentage := Some (negative_percentage d)\<rparr>"

definition eda_descriptive_data :: "eda \<Rightarrow> descriptive \<Rightarrow> narrative_data" where
  \<comment> \<open>\<^verbatim>\<open>{**eda, **descriptive}\<close>\<close>
  "eda_descriptive_data e d = (descriptive_data d)\<lparr>d_total_records := Some (total_records e)\<rparr>"

definition diagnostic_data :: "diagnostic \<Rightarrow> narrative_data" where
  "diagnostic_data g =
     no_data\<lparr>d_negative_keywords := Some (negative_keywords g),
             d_correlation_insights := Some (correlation_insights g)\<rparr>"

definition accuracy_of :: "predictive \<Rightarrow> real option" where
  "accuracy_of p = (case p of Trained acc prec rec f1 \<Rightarrow> Some acc | Skipped why \<Rightarrow> None)"

definition f1_of :: "predictive \<Rightarrow> real option" where
  "f1_of p = (case p of Trained acc prec rec f1 \<Rightarrow> Some f1 | Skipped why \<Rightarrow> None)"

definition predictive_data :: "predictive \<Rightarrow> narrative_data" where
  "predictive_data p =
     no_data\<lparr>d_status := Some (status p), d_accuracy := accuracy_of p, d_f1_score := f1_of p\<rparr>"

definition get_or :: "'a option \<Rightarrow> 'a \<Rightarrow> 'a" where
  \<comment> \<open>\<^verbatim>\<open>data.get(key, default)\<close>\<close>
  "get_or v d = (case v of None \<Rightarrow> d | Some x \<Rightarrow> x)"

fun join :: "string \<Rightarrow> string list \<Rightarrow> string" where
  "join sep [] = []"
| "join sep [x] = x"
| "join sep (x # y # ys) = x @ sep @ join sep (y # ys)"

definition generate_narrative :: "lib \<Rightarrow> string \<Rightarrow> narrative_data \<Rightarrow> string" where
  \<comment> \<open>\<^verbatim>\<open>_generate_narrative\<close>\<close>
  "generate_narrative lib section_name data =
     (if section_name = ''descriptive'' then
        (let total = get_or (d_total_records data) 0;
             pos_pct = get_or (d_positive_percentage data) 0;
             neg_pct = get_or (d_negative_percentage data) 0
         in ''Analysis of '' @ fmt_int lib '','' (int total) @
            '' records reveals a sentiment distribution with '' @
            fmt_float lib ''.1f'' pos_pct @ ''% positive and '' @
            fmt_float lib ''.1f'' neg_pct @ ''% negative responses. '' @
            ''The dataset demonstrates '' @
            (if neg_pct < pos_pct then ''favorable'' else ''concerning'') @
            '' patterns that warrant '' @
            (if 70 < pos_pct then ''celebration''
             else if 40 < neg_pct then ''attention'' else ''monitoring'') @ ''.'')
      else if section_name = ''diagnostic'' then
        (let keywords = get_or (d_negative_keywords data) [];
             correlations = get_or (d_correlation_insights data) []
         in if keywords \<noteq> [] then
              (let top_words = join '', '' (map fst (take 3 keywords))
               in ''Root cause analysis identifies key negative indicators: '' @ top_words @
                  ''. '' @
                  (if correlations \<noteq> [] then
                     ''Statistical correlations reveal '' @
                     fmt_int lib [] (int (length correlations)) @ '' significant relationships''
                   else ''Limited correlation patterns detected'') @
                  '' '' @ ''between features, suggesting '' @
                  (if correlations \<noteq> [] then ''structured'' else ''independent'') @
                  '' data dynamics.'')
            else ''Diagnostic analysis completed with limited negative indicators detected.'')
      else if section_name = ''predictive'' then
        (if get_or (d_status data) ''unknown'' = ''trained'' then
           (let acc = get_or (d_accuracy data) 0;
                f1 = get_or (d_f1_score data) 0
            in ''Predictive model successfully trained with '' @ fmt_float lib ''.1%'' acc @
               '' accuracy and '' @ fmt_float lib ''.3f'' f1 @ '' F1-score. '' @
               ''Forward-looking projections indicate '' @
               (if fl (8 / 10) < acc then ''strong'' else ''moderate'') @ '' reliability '' @
               ''for sentiment prediction tasks. Model performance '' @
               (if fl (85 / 100) < acc then ''exceeds'' else ''meets'') @
               '' industry benchmarks.'')
         else
           ''Predictive modeling skipped due to insufficient training data. Minimum 10 text records required.'')
      else if section_name = ''prescriptive'' then
        (let pos_pct = get_or (d_positive_percentage data) 0;
             neg_pct = get_or (d_negative_percentage data) 0
         in if 50 < neg_pct then
              ''Strategic intervention required. High negative sentiment demands immediate action. '' @
              ''Recommend forming cross-functional task force to address root causes and implement '' @
              ''rapid response protocols. Monitor weekly KPIs for improvement signals.''
            else if 70 < pos_pct then
              ''Momentum preservation strategy advised. Strong positive indicators suggest current '' @
              ''approach is effective. Scale successful initiatives while maintaining vigilance on '' @
              ''quality metrics. Consider expanding reach to capture broader market segments.''
            else
              ''Balanced optimization approach recommended. Mixed sentiment patterns indicate opportunities '' @
              ''for targeted improvements. Focus resources on consistency enhancement and systematic '' @
              ''monitoring of key performance drivers to establish positive trajectory.'')
      else ''Analysis complete with insights generated from statistical modeling.'')"

text \<open>The report is the nested dict that the web layer serializes. The stage results
  always hold every key that the functions below read, so the defaults of their
  \<^verbatim>\<open>.get\<close> calls are not reached and the fields are read directly.\<close>

datatype json = JStr string | JInt int | JNum real | JList "json list" | JDict "(string \<times> json) list"

definition py_int :: "real \<Rightarrow> int" where
  \<comment> \<open>\<^verbatim>\<open>int(x)\<close> on a float truncates toward zero\<close>
  "py_int x = (if 0 \<le> x then \<lfloor>x\<rfloor> else \<lceil>x\<rceil>)"

definition create_bi_overview :: "eda \<Rightarrow> descriptive \<Rightarrow> json" where
  \<comment> \<open>\<^verbatim>\<open>_create_bi_overview\<close>\<close>
  "create_bi_overview e d =
     (let composition =
            map (\<lambda>(label, count). JDict [(''label'', JStr label), (''value'', JInt (int count))])
              (sentiment_distribution e);
          composition =
            (if composition = [] then [JDict [(''label'', JStr ''Unknown''), (''value'', JInt 100)]]
             else composition);
          n = real (total_records e);
          trend =
            [JDict [(''name'', JStr ''Q1''), (''value'', JInt (py_int (fl (n * fl (7 / 10)))))],
             JDict [(''name'', JStr ''Q2''), (''value'', JInt (py_int (fl (n * fl (85 / 100)))))],
             JDict [(''name'', JStr ''Q3''), (''value'', JInt (py_int (fl (n * fl (95 / 100)))))],
             JDict [(''name'', JStr ''Q4''), (''value'', JInt (int (total_records e)))]];
          distribution =
            map (\<lambda>(word, count). JDict [(''category'', JStr word), (''value'', JInt (int count))])
              (take 8 (word_frequency e));
          distribution =
            (if distribution = [] then [JDict [(''category'', JStr ''No data''), (''value'', JInt 0)]]
             else distribution)
      in JDict [(''composition'', JList composition), (''trend'', JList trend),
                (''distribution'', JList distribution)])"

definition create_kpis :: "lib \<Rightarrow> eda \<Rightarrow> descriptive \<Rightarrow> json list" where
  \<comment> \<open>\<^verbatim>\<open>_create_kpis\<close>\<close>
  "create_kpis lib e d =
     (let pos_pct = positive_percentage d; neg_pct = negative_percentage d
      in [JDict [(''label'', JStr ''Total Records''),
                 (''value'', JStr (fmt_int lib '','' (int (total_records e)))),
                 (''change'', JStr ''+15%''), (''trend'', JStr ''up'')],
          JDict [(''label'', JStr ''Avg Text Length''),
                 (''value'', JStr (fmt_int lib [] (int (average_text_length e)))),
                 (''change'', JStr ''+8%''), (''trend'', JStr ''up'')],
          JDict [(''label'', JStr ''Positive Rate''),
                 (''value'', JStr (fmt_float lib ''.1f'' pos_pct @ ''%'')),
                 (''change'', JStr ((if 50 < pos_pct then ''+'' else []) @
                                    fmt_float lib ''.1f'' (fl (pos_pct - 50)) @ ''%'')),
                 (''trend'', JStr (if 50 < pos_pct then ''up'' else ''down''))],
          JDict [(''label'', JStr ''Negative Rate''),
                 (''value'', JStr (fmt_float lib ''.1f'' neg_pct @ ''%'')),
                 (''change'', JStr ((if 30 < neg_pct then ''+'' else []) @
                                    fmt_float lib ''.1f'' (fl (neg_pct - 30)) @ ''%'')),
                 (''trend'', JStr (if neg_pct < 30 then ''down'' else ''up''))]])"

definition forecast_entry :: "string \<Rightarrow> int \<Rightarrow> json" where
  "forecast_entry period predicted = JDict [(''period'', JStr period), (''predicted'', JInt predicted)]"

definition create_forecast :: "lib \<Rightarrow> predictive \<Rightarrow> nat \<Rightarrow> json list" where
  \<comment> \<open>\<^verbatim>\<open>_create_forecast\<close>\<close>
  "create_forecast lib p records =
     (let n = real records in
      if status p \<noteq> ''trained'' then
        [forecast_entry ''Current'' (int records),
         forecast_entry ''Month +1'' (py_int (fl (n * fl (105 / 100)))),
         forecast_entry ''Month +2'' (py_int (fl (n * fl (112 / 100)))),
         forecast_entry ''Month +3'' (py_int (fl (n * fl (118 / 100))))]
      else
        (let accuracy = get_or (accuracy_of p) (fl (7 / 10));
             growth_rate = fl (1 + fl (accuracy * fl (15 / 100)))
         in [forecast_entry ''Current'' (int records),
             forecast_entry ''Month +1'' (py_int (fl (n * growth_rate))),
             forecast_entry ''Month +2'' (py_int (fl (n * float_pow lib growth_rate 2))),
             forecast_entry ''Month +3'' (py_int (fl (n * float_pow lib growth_rate 3))),
             forecast_entry ''Month +4'' (py_int (fl (n * float_pow lib growth_rate 4)))]))"

definition recommendation :: "string \<Rightarrow> string \<Rightarrow> string \<Rightarrow> json" where
  "recommendation action impact priority =
     JDict [(''action'', JStr action), (''impact'', JStr impact), (''priority'', JStr priority)]"

definition create_recommendations :: "descriptive \<Rightarrow> diagnostic \<Rightarrow> json list" where
  \<comment> \<open>\<^verbatim>\<open>_create_recommendations\<close>\<close>
  "create_recommendations d g =
     (let pos_pct = positive_percentage d; neg_pct = negative_percentage d;
          correlations = correlation_insights g
      in [if 40 < neg_pct then
            recommendation ''Implement Customer Feedback Loop''
              ''Address negative sentiment drivers through systematic customer engagement and issue resolution protocols.''
              ''High''
          else
            recommendation ''Scale Positive Messaging''
              ''Amplify successful communication strategies across additional channels to maximize reach and engagement.''
              ''Medium'',
          if 2 < length correlations then
            recommendation ''Leverage Feature Relationships''
              ''Exploit discovered correlations to optimize predictive accuracy and identify intervention points.''
              ''High''
          else
            recommendation ''Enhance Data Collection''
              ''Expand feature set to capture additional dimensions and improve analytical depth.''
              ''Medium'',
          recommendation ''Establish Continuous Monitoring''
            ''Deploy real-time analytics dashboards to track KPIs and enable rapid response to emerging patterns.''
            (if 60 < pos_pct then ''Low'' else ''High'')])"

definition placeholder_correlation :: json where
  "placeholder_correlation =
     JDict [(''factor'', JStr ''No significant correlation''), (''relationship'', JStr ''neutral''),
            (''strength'', JNum 0)]"

function pad_correlations :: "json list \<Rightarrow> json list" where
  \<comment> \<open>\<^verbatim>\<open>while len(formatted) < 3: formatted.append(...)\<close>\<close>
  "pad_correlations formatted =
     (if length formatted < 3 then pad_correlations (formatted @ [placeholder_correlation])
      else formatted)"
  by pat_completeness auto
termination
  by (relation "measure (\<lambda>formatted. 3 - length formatted)") auto

definition format_correlations :: "(string \<times> real) list \<Rightarrow> json list" where
  \<comment> \<open>\<^verbatim>\<open>_format_correlations\<close>\<close>
  "format_correlations insights =
     pad_correlations
       (map (\<lambda>(pair, corr_value).
               JDict [(''factor'', JStr pair),
                      (''relationship'', JStr (if 0 < corr_value then ''positive'' else ''negative'')),
                      (''strength'', JNum \<bar>corr_value\<bar>)])
          insights)"

definition word_frequency_json :: "(string \<times> nat) list \<Rightarrow> json list" where
  "word_frequency_json items =
     map (\<lambda>(word, count). JDict [(''word'', JStr word), (''count'', JInt (int count))]) items"

definition build_report :: "lib \<Rightarrow> eda \<Rightarrow> descriptive \<Rightarrow> diagnostic \<Rightarrow> predictive \<Rightarrow> json" where
  \<comment> \<open>the part of \<^verbatim>\<open>run_full_analysis\<close> after the four stages\<close>
  "build_report lib e d g p =
     (let descriptive_narrative = generate_narrative lib ''descriptive'' (eda_descriptive_data e d);
          diagnostic_narrative = generate_narrative lib ''diagnostic'' (diagnostic_data g);
          predictive_narrative = generate_narrative lib ''predictive'' (predictive_data p);
          prescriptive_text = prescriptive_analytics [''descriptive_analytics'' \<mapsto> d];
          prescriptive_narrative = generate_narrative lib ''prescriptive'' (descriptive_data d)
      in JDict
           [(''biOverview'', create_bi_overview e d),
            (''descriptive'',
               JDict [(''kpis'', JList (create_kpis lib e d)),
                      (''narrative'', JStr descriptive_narrative),
                      (''chartData'', JList (word_frequency_json (word_frequency e)))]),
            (''diagnostic'',
               JDict [(''narrative'', JStr diagnostic_narrative),
                      (''correlations'', JList (format_correlations (correlation_insights g)))]),
            (''predictive'',
               JDict [(''narrative'', JStr predictive_narrative),
                      (''forecast'', JList (create_forecast lib p (total_records e))),
                      (''confidence'',
                         JNum (if status p = ''trained'' then get_or (accuracy_of p) (fl (75 / 100))
                               else fl (65 / 100))),
                      (''modelExplanation'',
                         JStr (if status p = ''trained'' then
                                 ''Logistic Regression classifier trained on '' @
                                 fmt_int lib [] (int (total_records e)) @ '' records '' @
                                 ''using TF-IDF vectorization. '' @
                                 ''Model metrics: Accuracy='' @
                                 fmt_float lib ''.3f'' (get_or (accuracy_of p) 0) @ '', '' @
                                 ''F1-Score='' @ fmt_float lib ''.3f'' (get_or (f1_of p) 0)
                               else
                                 ''Predictive model requires minimum dataset size for training reliability.''))]),
            (''prescriptive'',
               JDict [(''narrative'', JStr prescriptive_narrative),
                      (''recommendations'', JList (create_recommendations d g)),
                      (''disclaimer'',
                         JStr (''Recommendations are generated through statistical analysis and should be '' @
                               ''validated by domain experts. Results are indicative and not guaranteed. '' @
                               ''Always conduct additional due diligence before implementing strategic changes.''))])])"

definition run_full_analysis :: "lib \<Rightarrow> dataframe \<Rightarrow> scorer \<Rightarrow> error + json" where
  "run_full_analysis lib df model =
     (case perform_eda lib df model of
        Inl err \<Rightarrow> Inl err
      | Inr e \<Rightarrow>
          (case descriptive_analytics lib df model of
             Inl err \<Rightarrow> Inl err
           | Inr d \<Rightarrow>
               (case diagnostic_analytics lib df model of
                  Inl err \<Rightarrow> Inl err
                | Inr g \<Rightarrow>
                    (case predictive_analytics lib df model of
                       Inl err \<Rightarrow> Inl err
                     | Inr p \<Rightarrow> Inr (build_report lib e d g p)))))"

section \<open>Reading a report\<close>

definition json_keys :: "json \<Rightarrow> string list" where
  "json_keys j = (case j of JDict items \<Rightarrow> map fst items | _ \<Rightarrow> [])"

definition json_get :: "json \<Rightarrow> string \<Rightarrow> json option" where
  "json_get j key = (case j of JDict items \<Rightarrow> map_of items key | _ \<Rightarrow> None)"

definition json_items :: "json option \<Rightarrow> json list" where
  "json_items j = (case j of Some (JList items) \<Rightarrow> items | _ \<Rightarrow> [])"

fun json_path :: "json \<Rightarrow> string list \<Rightarrow> json option" where
  "json_path j [] = Some j"
| "json_path j (key # keys) =
     (case json_get j key of None \<Rightarrow> None | Some v \<Rightarrow> json_path v keys)"

definition report_of :: "error + json \<Rightarrow> json" where
  \<comment> \<open>the report of a run that returned one; the empty dict for a run that raised\<close>
  "report_of r = (case r of Inl e \<Rightarrow> JDict [] | Inr report \<Rightarrow> report)"

definition has_recommendation :: "json list \<Rightarrow> string \<Rightarrow> string \<Rightarrow> bool" where
  "has_recommendation recs action priority =
     list_ex (\<lambda>r. json_get r ''action'' = Some (JStr action) \<and>
                   json_get r ''priority'' = Some (JStr priority)) recs"

definition scoring_returns :: "lib \<Rightarrow> dataframe \<Rightarrow> scorer \<Rightarrow> bool" where
  \<comment> \<open>the scorer's call on the first 200 texts of the text column returns; true when no
      text column is found\<close>
  "scoring_returns lib df model =
     (case truthy (find_text_column df) of
        None \<Rightarrow> True
      | Some text_column \<Rightarrow> \<not> isl (model (take 200 (column_texts lib df text_column))))"

text \<open>The three prescriptive narratives and the three advisory texts, named.\<close>

definition intervention_narrative :: string where
  "intervention_narrative =
     ''Strategic intervention required. High negative sentiment demands immediate action. '' @
     ''Recommend forming cross-functional task force to address root causes and implement '' @
     ''rapid response protocols. Monitor weekly KPIs for improvement signals.''"

definition momentum_narrative :: string where
  "momentum_narrative =
     ''Momentum preservation strategy advised. Strong positive indicators suggest current '' @
     ''approach is effective. Scale successful initiatives while maintaining vigilance on '' @
     ''quality metrics. Consider expanding reach to capture broader market segments.''"

definition balanced_narrative :: string where
  "balanced_narrative =
     ''Balanced optimization approach recommended. Mixed sentiment patterns indicate opportunities '' @
     ''for targeted improvements. Focus resources on consistency enhancement and systematic '' @
     ''monitoring of key performance drivers to establish positive trajectory.''"

definition high_negative_advice :: string where
  "high_negative_advice =
     ''High negative sentiment detected. Prioritize customer feedback loops and rapid remediation.''"

definition strong_positive_advice :: string where
  "strong_positive_advice =
     ''Strong positive sentiment. Scale current messaging and reinforce top-performing channels.''"

definition mixed_advice :: string where
  "mixed_advice =
     ''Sentiment is mixed. Focus on improving consistency and monitoring key drivers weekly.''"

section \<open>Example inputs\<close>

text \<open>
  The four metrics as scikit-learn documents them for binary labels, the positive class
  1 and \<^verbatim>\<open>zero_division=0\<close>: the share of agreeing rows,
  \<open>tp / (tp + fp)\<close>, \<open>tp / (tp + fn)\<close> and \<open>2 tp / (2 tp + fp + fn)\<close>.
\<close>

definition hits :: "nat \<Rightarrow> nat \<Rightarrow> nat list \<Rightarrow> nat list \<Rightarrow> nat" where
  \<comment> \<open>the rows with true label \<open>t\<close> and predicted label \<open>p\<close>\<close>
  "hits t p y_true y_pred = length (filter (\<lambda>row. row = (t, p)) (zip y_true y_pred))"

definition ratio :: "nat \<Rightarrow> nat \<Rightarrow> real" where
  "ratio a b = (if b = 0 then 0 else fl (real a / real b))"

definition accuracy :: "nat list \<Rightarrow> nat list \<Rightarrow> real" where
  "accuracy y_true y_pred =
     ratio (length (filter (\<lambda>(t, p). t = p) (zip y_true y_pred))) (length y_true)"

definition precision :: "nat list \<Rightarrow> nat list \<Rightarrow> real" where
  "precision y_true y_pred =
     ratio (hits 1 1 y_true y_pred) (hits 1 1 y_true y_pred + hits 0 1 y_true y_pred)"

definition recall :: "nat list \<Rightarrow> nat list \<Rightarrow> real" where
  "recall y_true y_pred =
     ratio (hits 1 1 y_true y_pred) (hits 1 1 y_true y_pred + hits 1 0 y_true y_pred)"

definition f_measure :: "nat list \<Rightarrow> nat list \<Rightarrow> real" where
  "f_measure y_true y_pred =
     ratio (2 * hits 1 1 y_true y_pred)
       (2 * hits 1 1 y_true y_pred + hits 0 1 y_true y_pred + hits 1 0 y_true y_pred)"

text \<open>
  A library behaviour for the examples. Numbers are not formatted. The stratified split
  raises scikit-learn's \<^verbatim>\<open>ValueError\<close> when a class has fewer than two members;
  otherwise the test rows are taken to hold one label of each class, as in a fifth of ten
  rows split by class, and the classifier to answer 1 on both. The metrics are the ones
  above, and the power is the double nearest to the exact one.
\<close>

definition example_lib :: lib where
  "example_lib =
     \<lparr>fmt_float = (\<lambda>spec x. ''_''),
      fmt_int = (\<lambda>spec n. ''_''),
      fit_predict =
        (\<lambda>texts labels.
           if count_list labels 0 < 2 \<or> count_list labels 1 < 2 then
             Inl (Raised (''The least populated class in y has only 1 member, which is too few. '' @
                          ''The minimum number of groups for any class cannot be less than 2.''))
           else Inr ([1, 0], [1, 1])),
      accuracy_score = (\<lambda>y_true y_pred. Inr (accuracy y_true y_pred)),
      precision_score = (\<lambda>y_true y_pred. Inr (precision y_true y_pred)),
      recall_score = (\<lambda>y_true y_pred. Inr (recall y_true y_pred)),
      f1_score = (\<lambda>y_true y_pred. Inr (f_measure y_true y_pred)),
      float_pow = (\<lambda>x k. fl (x ^ k))\<rparr>"

definition keyword_scorer :: scorer where
  "keyword_scorer texts =
     Inr (map (\<lambda>text. if text = ''good'' then [''label'' \<mapsto> PyStr ''POSITIVE'']
                       else [''label'' \<mapsto> PyStr ''NEGATIVE'']) texts)"

definition failing_scorer :: scorer where
  "failing_scorer texts = Inl (Raised ''model unavailable'')"

definition interrupted_scorer :: scorer where
  \<comment> \<open>a scorer that is interrupted from the keyboard\<close>
  "interrupted_scorer texts = Inl (Interrupted ''KeyboardInterrupt'')"

definition reviews :: "nat \<Rightarrow> nat \<Rightarrow> dataframe" where
  \<comment> \<open>one text column with \<open>p\<close> rows "good" followed by \<open>n\<close> rows "bad"\<close>
  "reviews p n =
     \<lparr>columns = [(''text'', TextT)],
      rows = replicate p [Str ''good''] @ replicate n [Str ''bad'']\<rparr>"

definition unnamed_reviews :: dataframe where
  \<comment> \<open>three texts under a column with the empty name, as JSON records with the key
      \<^verbatim>\<open>""\<close> give\<close>
  "unnamed_reviews =
     \<lparr>columns = [([], TextT)], rows = [[Str ''good''], [Str ''bad''], [Str ''good'']]\<rparr>"

definition ranks_before :: "'a list \<Rightarrow> 'a \<Rightarrow> 'a \<Rightarrow> bool" where
  \<comment> \<open>the ranking of the words of a token list: the more frequent word first, and of two
      equally frequent words the one that is met first\<close>
  "ranks_before tokens a b =
     (count_list tokens b < count_list tokens a \<or>
      (count_list tokens a = count_list tokens b \<and> index_of a tokens < index_of b tokens))"

definition two_comments :: dataframe where
  "two_comments =
     \<lparr>columns = [(''id'', NumericT), (''text'', TextT)],
      rows = [[Num 1, Str ''B a''], [Num 2, Str '' a  b c '']]\<rparr>"

definition spaced_twice :: dataframe where
  \<comment> \<open>two rows that differ in the number of spaces only\<close>
  "spaced_twice =
     \<lparr>columns = [(''text'', TextT), (''value'', NumericT)],
      rows = [[Str ''a  b'', Num 1], [Str ''a b'', Num 1]]\<rparr>"

definition doubled_columns :: dataframe where
  \<comment> \<open>two numeric columns, the second twice the first\<close>
  "doubled_columns =
     \<lparr>columns = [(''col_a'', NumericT), (''col_b'', NumericT)],
      rows = [[Num 1, Num 2], [Num 2, Num 4], [Num 3, Num 6]]\<rparr>"

definition constant_columns :: dataframe where
  \<comment> \<open>the second numeric column is twice the first, and both are constant\<close>
  "constant_columns =
     \<lparr>columns = [(''col_a'', NumericT), (''col_b'', NumericT), (''note'', TextT)],
      rows = [[Num 1, Num 2, Str ''first''], [Num 1, Num 2, Str ''second'']]\<rparr>"

definition upper_case_scorer :: scorer where
  "upper_case_scorer texts =
     Inr (map (\<lambda>text. if text = ''good'' then [''label'' \<mapsto> PyStr ''POSITIVE'']
                       else if text = ''bad'' then [''label'' \<mapsto> PyStr ''NEGATIVE'']
                       else [''label'' \<mapsto> PyStr ''NEUTRAL'']) texts)"

definition mixed_case_scorer :: scorer where
  \<comment> \<open>the same verdicts in other letter cases, and no label at all where
      \<open>upper_case_scorer\<close> says NEUTRAL\<close>
  "mixed_case_scorer texts =
     Inr (map (\<lambda>text. if text = ''good'' then [''label'' \<mapsto> PyStr ''positive'']
                       else if text = ''bad'' then [''label'' \<mapsto> PyStr ''Negative'']
                       else Map.empty) texts)"

definition three_reviews :: dataframe where
  "three_reviews =
     \<lparr>columns = [(''text'', TextT)], rows = [[Str ''good''], [Str ''bad''], [Str ''so so'']]\<rparr>"

section \<open>The text normalizer\<close>

lemma isspace_space [simp]: "isspace (CHR '' '')"
  by (simp add: isspace_def)

lemma not_isspace_nul [simp]: "\<not> isspace (CHR 0x00)"
  by (simp add: isspace_def)

lemma crlf_tab_isspace: "is_crlf_tab c \<Longrightarrow> isspace c"
  by (auto simp: is_crlf_tab_def isspace_def)

lemma crlf_tab_not_space [simp]: "\<not> is_crlf_tab (CHR '' '')"
  by (simp add: is_crlf_tab_def)

lemma crlf_tab_not_nul [simp]: "\<not> is_crlf_tab (CHR 0x00)"
  by (simp add: is_crlf_tab_def)

lemma set_sub_runs: "set (sub_runs P prev s) \<subseteq> insert (CHR '' '') (set s)"
  by (induction s arbitrary: prev) auto

lemma nul_replace_nul: "CHR 0x00 \<notin> set (replace_nul s)"
  by (auto simp: replace_nul_def)

lemma sub_runs_class:
  "P (CHR '' '') \<Longrightarrow> c \<in> set (sub_runs P prev s) \<Longrightarrow> P c \<Longrightarrow> c = CHR '' ''"
  by (induction s arbitrary: prev) (auto split: if_splits)

lemma sub_runs_hd:
  "prev \<Longrightarrow> sub_runs P prev s \<noteq> [] \<Longrightarrow> \<not> P (hd (sub_runs P prev s))"
  by (induction s) (auto split: if_splits)

lemma sub_runs_successively:
  "P (CHR '' '') \<Longrightarrow> successively (\<lambda>a b. \<not> (P a \<and> P b)) (sub_runs P prev s)"
proof (induction s arbitrary: prev)
  case Nil
  then show ?case by simp
next
  case (Cons c cs)
  have tl: "\<And>q. successively (\<lambda>a b. \<not> (P a \<and> P b)) (sub_runs P q cs)"
    using Cons by blast
  show ?case
  proof (cases "P c")
    case True
    have "successively (\<lambda>a b. \<not> (P a \<and> P b)) (CHR '' '' # sub_runs P True cs)"
      using tl [of True] sub_runs_hd [of True P cs]
      by (cases "sub_runs P True cs") auto
    with True tl [of True] show ?thesis by simp
  next
    case False
    then have "successively (\<lambda>a b. \<not> (P a \<and> P b)) (c # sub_runs P False cs)"
      using tl [of False] by (cases "sub_runs P False cs") auto
    with False show ?thesis by simp
  qed
qed

lemma successively_dropWhile:
  "successively R s \<Longrightarrow> successively R (dropWhile Q s)"
  using successively_append_iff [of R "takeWhile Q s" "dropWhile Q s"] by simp

lemma successively_rev_sym:
  assumes "\<And>a b. R a b = R b a"
  shows "successively R (rev s) = successively R s"
proof -
  have "(\<lambda>x y. R y x) = R" using assms by (intro ext) simp
  then show ?thesis by (metis successively_rev)
qed

lemma dropWhile_hd_id: "xs \<noteq> [] \<Longrightarrow> \<not> P (hd xs) \<Longrightarrow> dropWhile P xs = xs"
  by (cases xs) auto

lemma strip_set: "set (strip s) \<subseteq> set s"
  by (auto simp: strip_def dest!: set_dropWhileD)

lemma strip_successively:
  assumes "successively (\<lambda>a b. \<not> (isspace a \<and> isspace b)) s"
  shows "successively (\<lambda>a b. \<not> (isspace a \<and> isspace b)) (strip s)"
proof -
  let ?R = "\<lambda>a b. \<not> (isspace a \<and> isspace b)"
  have sym: "\<And>a b. ?R a b = ?R b a" by blast
  have "successively ?R (dropWhile isspace s)"
    using assms by (rule successively_dropWhile)
  then have "successively ?R (rev (dropWhile isspace s))"
    using successively_rev_sym [of ?R] sym by blast
  then have "successively ?R (dropWhile isspace (rev (dropWhile isspace s)))"
    by (rule successively_dropWhile)
  then show ?thesis
    unfolding strip_def using successively_rev_sym [of ?R] sym by blast
qed

lemma strip_ends:
  assumes "strip s \<noteq> []"
  shows "\<not> isspace (hd (strip s)) \<and> \<not> isspace (last (strip s))"
proof -
  let ?d = "dropWhile isspace s"
  let ?e = "dropWhile isspace (rev ?d)"
  have ne: "?e \<noteq> []" using assms by (simp add: strip_def)
  then have l: "\<not> isspace (hd ?e)" by (rule hd_dropWhile)
  have dne: "?d \<noteq> []"
  proof
    assume "?d = []"
    with ne show False by (metis dropWhile.simps(1) rev.simps(1))
  qed
  then have h: "\<not> isspace (hd ?d)" by (rule hd_dropWhile)
  have "last ?e = last (rev ?d)"
    using ne by (metis last_appendR takeWhile_dropWhile_id)
  then have "last ?e = hd ?d" using dne by (simp add: last_rev)
  with h have "\<not> isspace (last ?e)" by simp
  moreover have "hd (strip s) = last ?e" using ne by (simp add: strip_def hd_rev)
  moreover have "last (strip s) = hd ?e" using ne by (simp add: strip_def last_rev)
  ultimately show ?thesis using l by simp
qed

lemma clean_text_normalized: "normalized (clean_text s)"
proof -
  let ?a = "sub_runs is_crlf_tab False (replace_nul s)"
  let ?b = "sub_runs isspace False ?a"
  have "set ?b \<subseteq> insert (CHR '' '') (set ?a)" by (rule set_sub_runs)
  moreover have "set ?a \<subseteq> insert (CHR '' '') (set (replace_nul s))" by (rule set_sub_runs)
  ultimately have "CHR 0x00 \<notin> set ?b" using nul_replace_nul [of s] by auto
  then have nul: "CHR 0x00 \<notin> set (clean_text s)"
    using strip_set [of ?b] by (auto simp: clean_text_def)
  have "\<forall>c \<in> set ?b. isspace c \<longrightarrow> c = CHR '' ''"
    using sub_runs_class [of isspace _ False ?a] by auto
  then have sp: "\<forall>c \<in> set (clean_text s). isspace c \<longrightarrow> c = CHR '' ''"
    using strip_set [of ?b] by (auto simp: clean_text_def)
  have "successively (\<lambda>a b. \<not> (isspace a \<and> isspace b)) ?b"
    by (rule sub_runs_successively) simp
  then have adj: "successively (\<lambda>a b. \<not> (isspace a \<and> isspace b)) (clean_text s)"
    unfolding clean_text_def by (rule strip_successively)
  have ends: "clean_text s \<noteq> [] \<longrightarrow>
      \<not> isspace (hd (clean_text s)) \<and> \<not> isspace (last (clean_text s))"
    unfolding clean_text_def using strip_ends by blast
  show ?thesis unfolding normalized_def using nul sp adj ends by blast
qed

lemma replace_nul_id: "CHR 0x00 \<notin> set s \<Longrightarrow> replace_nul s = s"
  by (induction s) (auto simp: replace_nul_def)

lemma sub_runs_none: "\<forall>c \<in> set s. \<not> P c \<Longrightarrow> sub_runs P prev s = s"
  by (induction s arbitrary: prev) auto

lemma sub_runs_isspace_id:
  assumes "\<forall>c \<in> set s. isspace c \<longrightarrow> c = CHR '' ''"
    and "successively (\<lambda>a b. \<not> (isspace a \<and> isspace b)) s"
    and "prev \<longrightarrow> s = [] \<or> \<not> isspace (hd s)"
  shows "sub_runs isspace prev s = s"
  using assms
proof (induction s arbitrary: prev)
  case Nil
  then show ?case by simp
next
  case (Cons c cs)
  have succ: "successively (\<lambda>a b. \<not> (isspace a \<and> isspace b)) cs"
    using Cons.prems(2) by (cases cs) auto
  have cls: "\<forall>c \<in> set cs. isspace c \<longrightarrow> c = CHR '' ''"
    using Cons.prems(1) by simp
  show ?case
  proof (cases "isspace c")
    case True
    then have c: "c = CHR '' ''" and np: "\<not> prev"
      using Cons.prems(1,3) by auto
    have "cs = [] \<or> \<not> isspace (hd cs)"
      using Cons.prems(2) True by (cases cs) auto
    then have "sub_runs isspace True cs = cs"
      using Cons.IH [of True] cls succ by blast
    with True c np show ?thesis by simp
  next
    case False
    have "sub_runs isspace False cs = cs"
      using Cons.IH [of False] cls succ by blast
    with False show ?thesis by simp
  qed
qed

lemma strip_id:
  assumes "s \<noteq> [] \<longrightarrow> \<not> isspace (hd s) \<and> \<not> isspace (last s)"
  shows "strip s = s"
proof (cases "s = []")
  case True
  then show ?thesis by (simp add: strip_def)
next
  case False
  then have h: "\<not> isspace (hd s)" and l: "\<not> isspace (last s)" using assms by auto
  have d: "dropWhile isspace s = s" using False h by (rule dropWhile_hd_id)
  have "rev s \<noteq> []" and "\<not> isspace (hd (rev s))" using False l by (auto simp: hd_rev)
  then have "dropWhile isspace (rev s) = rev s" by (rule dropWhile_hd_id)
  with d show ?thesis by (simp add: strip_def)
qed

lemma normalized_fixed: "normalized s \<Longrightarrow> clean_text s = s"
proof -
  assume n: "normalized s"
  then have 1: "replace_nul s = s" by (simp add: normalized_def replace_nul_id)
  have "\<forall>c \<in> set s. \<not> is_crlf_tab c"
  proof
    fix c assume c: "c \<in> set s"
    show "\<not> is_crlf_tab c"
    proof
      assume t: "is_crlf_tab c"
      then have "isspace c" by (rule crlf_tab_isspace)
      with n c have "c = CHR '' ''" by (auto simp: normalized_def)
      with t show False by simp
    qed
  qed
  then have 2: "sub_runs is_crlf_tab False s = s" by (rule sub_runs_none)
  have 3: "sub_runs isspace False s = s"
    using n by (intro sub_runs_isspace_id) (auto simp: normalized_def)
  have 4: "strip s = s" using n by (intro strip_id) (auto simp: normalized_def)
  show ?thesis by (simp add: clean_text_def 1 2 3 4)
qed

text \<open>
  Claim C8. The text normalizer is idempotent: normalizing a normalized text changes
  nothing, for every string, the empty one included (on which it returns the empty
  string). It is a total function of its argument alone.
\<close>

theorem clean_text_idempotent:
  "clean_text (clean_text s) = clean_text s \<and> clean_text [] = []"
proof
  show "clean_text (clean_text s) = clean_text s"
    using clean_text_normalized by (rule normalized_fixed)
  show "clean_text [] = []"
    by (simp add: clean_text_def strip_def replace_nul_def)
qed

section \<open>Rounding to doubles\<close>

lemma pow2_pos [simp]: "0 < pow2 e"
  by (simp add: pow2_def)

lemma pow2_nonneg [simp]: "0 \<le> pow2 e"
  by (simp add: pow2_def)

lemma pow2_neq0 [simp]: "pow2 e \<noteq> 0"
  by (simp add: pow2_def)

lemma pow2_power_int: "pow2 e = power_int 2 e"
  by (simp add: pow2_def power_int_def field_simps)

lemma pow2_add: "pow2 (a + b) = pow2 a * pow2 b"
  by (simp add: pow2_power_int power_int_add)

lemma pow2_mono: "a \<le> b \<Longrightarrow> pow2 a \<le> pow2 b"
  by (simp add: pow2_power_int power_int_increasing)

lemma float_exponent_bounds:
  assumes "0 < a"
  shows "pow2 (float_exponent a) \<le> a \<and> a < 2 * pow2 (float_exponent a)"
proof (cases "1 \<le> a")
  case True
  let ?n = "\<lfloor>a\<rfloor>"
  have n: "0 < ?n" using True by linarith
  have e: "0 \<le> bitlen ?n - 1" using n by (simp add: bitlen_alt_def)
  have b: "2 ^ nat (bitlen ?n - 1) \<le> ?n \<and> ?n < 2 ^ nat (bitlen ?n)"
    using bitlen_bounds [OF n] .
  have "nat (bitlen ?n) = Suc (nat (bitlen ?n - 1))" using e by linarith
  then have up: "?n + 1 \<le> 2 * 2 ^ nat (bitlen ?n - 1)" using b by simp
  have "real_of_int (2 ^ nat (bitlen ?n - 1)) \<le> real_of_int ?n"
    using b by (simp only: of_int_le_iff)
  also have "\<dots> \<le> a" by simp
  finally have lo: "(2::real) ^ nat (bitlen ?n - 1) \<le> a" by simp
  have "a < real_of_int (?n + 1)" by linarith
  also have "\<dots> \<le> real_of_int (2 * 2 ^ nat (bitlen ?n - 1))" using up by linarith
  finally have hi: "a < 2 * 2 ^ nat (bitlen ?n - 1)" by simp
  show ?thesis using True e lo hi by (simp add: float_exponent_def pow2_def)
next
  case False
  let ?m = "\<lceil>1 / a\<rceil>"
  let ?k = "bitlen (?m - 1)"
  have a1: "a < 1" using False by simp
  then have "1 < 1 / a" using assms by simp
  then have m: "0 < ?m - 1" by linarith
  have b: "2 ^ nat (?k - 1) \<le> ?m - 1 \<and> ?m - 1 < 2 ^ nat ?k"
    using bitlen_bounds [OF m] .
  have k: "1 \<le> ?k" using m by (simp add: bitlen_alt_def)
  have "1 / a \<le> real_of_int ?m" by linarith
  also have "\<dots> \<le> real_of_int (2 ^ nat ?k)" using b by linarith
  finally have "1 / a \<le> 2 ^ nat ?k" by simp
  then have lo: "1 / 2 ^ nat ?k \<le> a" using assms
    by (simp add: field_simps)
  have "real_of_int (2 ^ nat (?k - 1)) \<le> real_of_int (?m - 1)" using b by linarith
  also have "\<dots> < 1 / a" by linarith
  finally have "2 ^ nat (?k - 1) < 1 / a" by simp
  then have "a * 2 ^ nat (?k - 1) < 1" using assms by (simp add: field_simps)
  moreover have "nat ?k = Suc (nat (?k - 1))" using k by linarith
  ultimately have hi: "a * 2 ^ nat ?k < 2" by simp
  then have hi': "a < 2 * (1 / 2 ^ nat ?k)" by (simp add: field_simps)
  have "float_exponent a = - ?k" using False by (simp add: float_exponent_def)
  moreover have "pow2 (- ?k) = 1 / 2 ^ nat ?k" using k by (simp add: pow2_def)
  ultimately show ?thesis using lo hi' by simp
qed

lemma round_half_even_error: "\<bar>real_of_int (round_half_even x) - x\<bar> \<le> 1 / 2"
  unfolding round_half_even_def Let_def by (auto; linarith)

lemma round_half_even_of_int [simp]: "round_half_even (of_int n) = n"
  by (simp add: round_half_even_def)

lemma round_half_even_le: "x \<le> of_int n \<Longrightarrow> round_half_even x \<le> n"
  using round_half_even_error [of x] by linarith

lemma round_half_even_ge: "of_int n \<le> x \<Longrightarrow> n \<le> round_half_even x"
  using round_half_even_error [of x] by linarith

lemma fl_zero [simp]: "fl 0 = 0"
  by (simp add: fl_def)

lemma fl_pos_eq:
  assumes "0 < x"
  shows "fl x = of_int (round_half_even (x / pow2 (max (float_exponent x) (- 1022) - 52))) *
                pow2 (max (float_exponent x) (- 1022) - 52)"
  using assms by (simp add: fl_def Let_def)

lemma fl_nonneg: "0 \<le> x \<Longrightarrow> 0 \<le> fl x"
proof (cases "x = 0")
  case True then show ?thesis by simp
next
  case False
  assume "0 \<le> x"
  with False have x: "0 < x" by simp
  let ?q = "pow2 (max (float_exponent x) (- 1022) - 52)"
  have "of_int 0 \<le> x / ?q" using x by simp
  then have "0 \<le> round_half_even (x / ?q)" by (rule round_half_even_ge)
  then show ?thesis using x by (simp add: fl_pos_eq)
qed

lemma fl_error:
  assumes "0 \<le> x"
  shows "\<bar>fl x - x\<bar> \<le> x / 2 ^ 53 + pow2 (- 1075)"
proof (cases "x = 0")
  case True then show ?thesis by simp
next
  case False
  with assms have x: "0 < x" by simp
  let ?e = "max (float_exponent x) (- 1022)"
  let ?q = "pow2 (?e - 52)"
  have "fl x - x = ?q * (of_int (round_half_even (x / ?q)) - x / ?q)"
    using x by (simp add: fl_pos_eq field_simps)
  then have "\<bar>fl x - x\<bar> = ?q * \<bar>of_int (round_half_even (x / ?q)) - x / ?q\<bar>"
    by (simp add: abs_mult)
  also have "\<dots> \<le> ?q * (1 / 2)"
    using round_half_even_error [of "x / ?q"] by (intro mult_left_mono) auto
  finally have err: "\<bar>fl x - x\<bar> \<le> ?q / 2" by simp
  have q: "?q / 2 = pow2 (?e - 53)"
    using pow2_add [of "?e - 53" 1] by (simp add: pow2_def)
  show ?thesis
  proof (cases "- 1022 \<le> float_exponent x")
    case True
    then have "?q / 2 = pow2 (float_exponent x + (- 53))" using q by (simp add: max_def)
    also have "\<dots> = pow2 (float_exponent x) * pow2 (- 53)" by (rule pow2_add)
    also have "\<dots> \<le> x * pow2 (- 53)"
      using float_exponent_bounds [OF x] by (intro mult_right_mono) auto
    finally have "?q / 2 \<le> x / 2 ^ 53" by (simp add: pow2_def)
    with err show ?thesis by (smt (verit) pow2_pos)
  next
    case False
    then have "?q / 2 = pow2 (- 1075)" using q by (simp add: max_def)
    with err x show ?thesis by (smt (verit) divide_nonneg_pos zero_less_power zero_less_numeral)
  qed
qed

lemma pow2_le_iff: "pow2 a \<le> pow2 b \<longleftrightarrow> a \<le> b"
proof
  assume le: "pow2 a \<le> pow2 b"
  show "a \<le> b"
  proof (rule ccontr)
    assume "\<not> a \<le> b"
    then have "b < a" by simp
    then have "pow2 b < pow2 a"
      unfolding pow2_power_int by (rule power_int_strict_increasing) simp
    with le show False by simp
  qed
next
  assume "a \<le> b"
  then show "pow2 a \<le> pow2 b" by (rule pow2_mono)
qed

lemma pow2_of_nonneg: "0 \<le> n \<Longrightarrow> pow2 n = of_int (2 ^ nat n)"
  by (simp add: pow2_def)

lemma fl_le_pow2:
  assumes "0 \<le> x" and "x \<le> pow2 k" and "- 1022 \<le> k"
  shows "fl x \<le> pow2 k"
proof (cases "x = 0")
  case True then show ?thesis by simp
next
  case False
  with assms have x: "0 < x" by simp
  let ?e = "max (float_exponent x) (- 1022)"
  let ?q = "pow2 (?e - 52)"
  have "pow2 (float_exponent x) \<le> pow2 k"
    using float_exponent_bounds [OF x] assms(2) by linarith
  then have "float_exponent x \<le> k" by (simp add: pow2_le_iff)
  then have ek: "0 \<le> k - (?e - 52)" using assms(3) by simp
  have "pow2 k = pow2 (k - (?e - 52)) * ?q"
    using pow2_add [of "k - (?e - 52)" "?e - 52"] by simp
  then have "x / ?q \<le> pow2 (k - (?e - 52))"
    using assms(2) by (simp add: field_simps)
  then have "x / ?q \<le> of_int (2 ^ nat (k - (?e - 52)))"
    using pow2_of_nonneg [OF ek] by simp
  then have "round_half_even (x / ?q) \<le> 2 ^ nat (k - (?e - 52))"
    by (rule round_half_even_le)
  then have "real_of_int (round_half_even (x / ?q)) \<le> real_of_int (2 ^ nat (k - (?e - 52)))"
    by (simp only: of_int_le_iff)
  then have "real_of_int (round_half_even (x / ?q)) \<le> pow2 (k - (?e - 52))"
    using pow2_of_nonneg [OF ek] by simp
  then have "real_of_int (round_half_even (x / ?q)) * ?q \<le> pow2 (k - (?e - 52)) * ?q"
    by (intro mult_right_mono) auto
  then show ?thesis
    using x \<open>pow2 k = pow2 (k - (?e - 52)) * ?q\<close> by (simp add: fl_pos_eq)
qed

lemma fl_unit: "0 \<le> x \<Longrightarrow> x \<le> 1 \<Longrightarrow> 0 \<le> fl x \<and> fl x \<le> 1"
  using fl_le_pow2 [of x 0] fl_nonneg [of x] by (simp add: pow2_def)

lemma py_round_unit:
  assumes "0 \<le> x" and "x \<le> 1"
  shows "0 \<le> py_round x 3 \<and> py_round x 3 \<le> 1"
proof -
  let ?k = "round_half_even (x * 10 ^ 3)"
  have "of_int 0 \<le> x * 10 ^ 3" using assms by simp
  then have lo: "0 \<le> ?k" by (rule round_half_even_ge)
  have "x * 10 ^ 3 \<le> of_int 1000" using assms by simp
  then have hi: "?k \<le> 1000" by (rule round_half_even_le)
  have "0 \<le> real_of_int ?k / 10 ^ 3" using lo by simp
  moreover have "real_of_int ?k / 10 ^ 3 \<le> 1" using hi by simp
  ultimately show ?thesis unfolding py_round_def by (rule fl_unit)
qed

section \<open>The predictive stage\<close>

lemma predictive_cases:
  "(\<exists>acc prec rec f1. r = Trained acc prec rec f1 \<and> status r = ''trained'') \<or>
   (\<exists>why. r = Skipped why \<and> status r = ''skipped'' \<and> reason r = Some why)"
  by (cases r) auto

lemma predictive_no_column:
  "truthy (find_text_column df) = None \<Longrightarrow>
   predictive_analytics lib df model =
     Inr (Skipped ''No text column available for model training.'')"
  by (simp add: predictive_analytics_def)

lemma predictive_few_rows:
  "truthy (find_text_column df) = Some c \<Longrightarrow> length (column_texts lib df c) < 10 \<Longrightarrow>
   predictive_analytics lib df model = Inr (Skipped ''Not enough text records for training.'')"
  by (simp add: predictive_analytics_def)

lemma predictive_train:
  "truthy (find_text_column df) = Some c \<Longrightarrow> 10 \<le> length (column_texts lib df c) \<Longrightarrow>
   predictive_analytics lib df model =
     (case train lib model (column_texts lib df c) of
        Inl (Raised msg) \<Rightarrow> Inr (Skipped (''Model training failed: '' @ msg))
      | Inl (Interrupted msg) \<Rightarrow> Inl (Interrupted msg)
      | Inr result \<Rightarrow> Inr result)"
  by (simp add: predictive_analytics_def)

lemma predictive_Inl:
  "predictive_analytics lib df model = Inl e \<longleftrightarrow>
     (\<exists>c msg. e = Interrupted msg \<and> truthy (find_text_column df) = Some c \<and>
        10 \<le> length (column_texts lib df c) \<and>
        train lib model (column_texts lib df c) = Inl (Interrupted msg))"
  by (auto simp: predictive_analytics_def Let_def split: option.splits sum.splits error.splits)

lemma train_interrupted:
  assumes "train lib model texts = Inl (Interrupted msg)"
  shows "model (take 500 texts) = Inl (Interrupted msg) \<or>
    (\<exists>scores. model (take 500 texts) = Inr scores \<and>
       (fit_predict lib (take (length (binarize lib scores)) texts) (binarize lib scores) =
          Inl (Interrupted msg) \<or>
        (\<exists>y_test preds.
           fit_predict lib (take (length (binarize lib scores)) texts) (binarize lib scores) =
             Inr (y_test, preds) \<and>
           (accuracy_score lib y_test preds = Inl (Interrupted msg) \<or>
            precision_score lib y_test preds = Inl (Interrupted msg) \<or>
            recall_score lib y_test preds = Inl (Interrupted msg) \<or>
            f1_score lib y_test preds = Inl (Interrupted msg)))))"
  using assms
  by (auto simp: train_def Let_def split: sum.splits if_splits prod.splits)

lemma remdups_two:
  "a \<in> set xs \<Longrightarrow> b \<in> set xs \<Longrightarrow> a \<noteq> b \<Longrightarrow> 2 \<le> length (remdups xs)"
proof -
  assume a: "a \<in> set xs" and b: "b \<in> set xs" and ab: "a \<noteq> b"
  have "card {a, b} \<le> card (set xs)" using a b by (intro card_mono) auto
  then show ?thesis using ab by (simp add: length_remdups_card_conv)
qed

lemma remdups_same:
  assumes "\<forall>a \<in> set xs. \<forall>b \<in> set xs. a = b"
  shows "length (remdups xs) < 2"
proof (cases xs)
  case Nil then show ?thesis by simp
next
  case (Cons x ys)
  then have "set xs = {x}" using assms by auto
  then have "card (set xs) = 1" by simp
  then show ?thesis by (simp add: length_remdups_card_conv)
qed

lemma train_same:
  "model (take 500 texts) = Inr scores \<Longrightarrow>
   \<forall>a \<in> set (binarize lib scores). \<forall>b \<in> set (binarize lib scores). a = b \<Longrightarrow>
   train lib model texts =
     Inr (Skipped ''All texts have the same sentiment; model training requires mixed sentiment data.'')"
  using remdups_same [of "binarize lib scores"] by (simp add: train_def)

lemma train_mixed:
  assumes "model (take 500 texts) = Inr scores"
    and "1 \<in> set (binarize lib scores)" and "0 \<in> set (binarize lib scores)"
  shows "train lib model texts =
     (case fit_predict lib (take (length (binarize lib scores)) texts) (binarize lib scores) of
        Inl e \<Rightarrow> Inl e
      | Inr (y_test, preds) \<Rightarrow>
          (case accuracy_score lib y_test preds of
             Inl e \<Rightarrow> Inl e
           | Inr acc \<Rightarrow>
               (case precision_score lib y_test preds of
                  Inl e \<Rightarrow> Inl e
                | Inr prec \<Rightarrow>
                    (case recall_score lib y_test preds of
                       Inl e \<Rightarrow> Inl e
                     | Inr rec \<Rightarrow>
                         (case f1_score lib y_test preds of
                            Inl e \<Rightarrow> Inl e
                          | Inr f1 \<Rightarrow>
                              Inr (Trained (py_round acc 3) (py_round prec 3)
                                     (py_round rec 3) (py_round f1 3)))))))"
proof -
  have "2 \<le> length (remdups (binarize lib scores))"
    using assms(2,3) by (rule remdups_two) simp
  then show ?thesis using assms(1) by (simp add: train_def Let_def)
qed

lemma train_scorer_raises: "model (take 500 texts) = Inl e \<Longrightarrow> train lib model texts = Inl e"
  by (simp add: train_def)

text \<open>
  Claim C2, amended. For a table with distinct column names, the predictive stage
  passes no \<^verbatim>\<open>Exception\<close> on: when the scorer raises one, or any later step of the
  training block does, the stage returns "skipped" with the reason "Model training
  failed: " followed by the message. Every result it returns is a trained result with
  status "trained" and four metrics or a skipped result with status "skipped" and a
  reason. The stage does pass an exception on in one case: with a text column of at least
  10 rows, when the scorer or a library call of the training block raises an exception
  that is not an \<^verbatim>\<open>Exception\<close>, such as \<^verbatim>\<open>KeyboardInterrupt\<close>.
\<close>

theorem predictive_never_raises:
  assumes "distinct_names df"
  shows "(\<forall>msg. predictive_analytics lib df model \<noteq> Inl (Raised msg)) \<and>
   (\<forall>c msg. truthy (find_text_column df) = Some c \<and> 10 \<le> length (column_texts lib df c) \<and>
       (model (take 500 (column_texts lib df c)) = Inl (Raised msg) \<or>
        train lib model (column_texts lib df c) = Inl (Raised msg)) \<longrightarrow>
       predictive_analytics lib df model = Inr (Skipped (''Model training failed: '' @ msg))) \<and>
   (\<forall>p. predictive_analytics lib df model = Inr p \<longrightarrow>
       (\<exists>acc prec rec f1. p = Trained acc prec rec f1 \<and> status p = ''trained'') \<or>
       (\<exists>why. p = Skipped why \<and> status p = ''skipped'' \<and> reason p = Some why)) \<and>
   (\<forall>e. predictive_analytics lib df model = Inl e \<longleftrightarrow>
       (\<exists>c msg. e = Interrupted msg \<and> truthy (find_text_column df) = Some c \<and>
          10 \<le> length (column_texts lib df c) \<and>
          train lib model (column_texts lib df c) = Inl (Interrupted msg))) \<and>
   (\<forall>texts msg. train lib model texts = Inl (Interrupted msg) \<longrightarrow>
       model (take 500 texts) = Inl (Interrupted msg) \<or>
       (\<exists>scores. model (take 500 texts) = Inr scores \<and>
          (fit_predict lib (take (length (binarize lib scores)) texts) (binarize lib scores) =
             Inl (Interrupted msg) \<or>
           (\<exists>y_test preds.
              fit_predict lib (take (length (binarize lib scores)) texts) (binarize lib scores) =
                Inr (y_test, preds) \<and>
              (accuracy_score lib y_test preds = Inl (Interrupted msg) \<or>
               precision_score lib y_test preds = Inl (Interrupted msg) \<or>
               recall_score lib y_test preds = Inl (Interrupted msg) \<or>
               f1_score lib y_test preds = Inl (Interrupted msg))))))"
proof (intro conjI allI impI)
  fix msg
  show "predictive_analytics lib df model \<noteq> Inl (Raised msg)"
    using predictive_Inl [of lib df model "Raised msg"] by simp
next
  fix c msg
  assume h: "truthy (find_text_column df) = Some c \<and> 10 \<le> length (column_texts lib df c) \<and>
       (model (take 500 (column_texts lib df c)) = Inl (Raised msg) \<or>
        train lib model (column_texts lib df c) = Inl (Raised msg))"
  then have "train lib model (column_texts lib df c) = Inl (Raised msg)"
    using train_scorer_raises by blast
  with h show "predictive_analytics lib df model =
      Inr (Skipped (''Model training failed: '' @ msg))"
    by (simp add: predictive_train)
next
  fix p
  show "(\<exists>acc prec rec f1. p = Trained acc prec rec f1 \<and> status p = ''trained'') \<or>
       (\<exists>why. p = Skipped why \<and> status p = ''skipped'' \<and> reason p = Some why)"
    by (rule predictive_cases)
next
  fix e
  show "predictive_analytics lib df model = Inl e \<longleftrightarrow>
       (\<exists>c msg. e = Interrupted msg \<and> truthy (find_text_column df) = Some c \<and>
          10 \<le> length (column_texts lib df c) \<and>
          train lib model (column_texts lib df c) = Inl (Interrupted msg))"
    by (rule predictive_Inl)
next
  fix texts msg
  assume "train lib model texts = Inl (Interrupted msg)"
  then show "model (take 500 texts) = Inl (Interrupted msg) \<or>
       (\<exists>scores. model (take 500 texts) = Inr scores \<and>
          (fit_predict lib (take (length (binarize lib scores)) texts) (binarize lib scores) =
             Inl (Interrupted msg) \<or>
           (\<exists>y_test preds.
              fit_predict lib (take (length (binarize lib scores)) texts) (binarize lib scores) =
                Inr (y_test, preds) \<and>
              (accuracy_score lib y_test preds = Inl (Interrupted msg) \<or>
               precision_score lib y_test preds = Inl (Interrupted msg) \<or>
               recall_score lib y_test preds = Inl (Interrupted msg) \<or>
               f1_score lib y_test preds = Inl (Interrupted msg)))))"
    by (rule train_interrupted)
qed

lemma reviews_distinct_names: "distinct_names (reviews p n)"
  by (simp add: distinct_names_def reviews_def)

lemma reviews_text_column: "truthy (find_text_column (reviews p n)) = Some ''text''"
  by (simp add: reviews_def find_text_column_def truthy_def)

lemma reviews_texts:
  "column_texts lib (reviews p n) ''text'' = replicate p ''good'' @ replicate n ''bad''"
  by (simp add: reviews_def column_texts_def index_of_def cell_at_def as_text_def)

theorem predictive_never_raises_witness:
  "distinct_names (reviews 5 5) \<and>
   truthy (find_text_column (reviews 5 5)) = Some ''text'' \<and>
   10 \<le> length (column_texts example_lib (reviews 5 5) ''text'') \<and>
   failing_scorer (take 500 (column_texts example_lib (reviews 5 5) ''text'')) =
     Inl (Raised ''model unavailable'') \<and>
   predictive_analytics example_lib (reviews 5 5) failing_scorer =
     Inr (Skipped ''Model training failed: model unavailable'')"
proof -
  have h: "truthy (find_text_column (reviews 5 5)) = Some ''text'' \<and>
      10 \<le> length (column_texts example_lib (reviews 5 5) ''text'') \<and>
      failing_scorer (take 500 (column_texts example_lib (reviews 5 5) ''text'')) =
        Inl (Raised ''model unavailable'')"
    by (simp add: reviews_text_column reviews_texts failing_scorer_def)
  from predictive_never_raises [where df = "reviews 5 5" and lib = example_lib
      and model = failing_scorer, OF reviews_distinct_names] h
  have "predictive_analytics example_lib (reviews 5 5) failing_scorer =
      Inr (Skipped (''Model training failed: '' @ ''model unavailable''))"
    by blast
  with h reviews_distinct_names [of 5 5] show ?thesis by simp
qed

text \<open>
  Claim C2 as stated fails for a scorer that is interrupted: on ten text rows the stage
  calls the scorer inside its \<^verbatim>\<open>try\<close> block, whose handler catches
  \<^verbatim>\<open>Exception\<close> only, and the \<^verbatim>\<open>KeyboardInterrupt\<close> reaches the caller.
\<close>

theorem predictive_interrupt_counterexample:
  "distinct_names (reviews 5 5) \<and>
   length (column_texts example_lib (reviews 5 5) ''text'') = 10 \<and>
   interrupted_scorer (take 500 (column_texts example_lib (reviews 5 5) ''text'')) =
     Inl (Interrupted ''KeyboardInterrupt'') \<and>
   predictive_analytics example_lib (reviews 5 5) interrupted_scorer =
     Inl (Interrupted ''KeyboardInterrupt'')"
  by (simp add: reviews_distinct_names reviews_texts predictive_train reviews_text_column
      train_def interrupted_scorer_def)


lemma keyword_labels:
  "map_sum id (binarize lib) (keyword_scorer (replicate p ''good'' @ replicate n ''bad'')) =
     Inr (replicate p 1 @ replicate n 0)"
  by (simp add: keyword_scorer_def binarize_def sentiment_label_def py_str_def upper_def
      upper_char_def map_replicate)

lemma count_list_replicate: "count_list (replicate n x) y = (if x = y then n else 0)"
  by (induction n) auto

lemma keyword_scores:
  "keyword_scorer (replicate p ''good'' @ replicate n ''bad'') =
     Inr (replicate p [''label'' \<mapsto> PyStr ''POSITIVE''] @
          replicate n [''label'' \<mapsto> PyStr ''NEGATIVE''])"
  by (simp add: keyword_scorer_def map_replicate)

lemma binarize_keyword:
  "binarize lib (replicate p [''label'' \<mapsto> PyStr ''POSITIVE''] @
                 replicate n [''label'' \<mapsto> PyStr ''NEGATIVE'']) =
     replicate p 1 @ replicate n 0"
  by (simp add: binarize_def sentiment_label_def py_str_def upper_def upper_char_def map_replicate)

lemma example_metrics:
  "accuracy [1, 0] [1, 1] = 1 / 2" "precision [1, 0] [1, 1] = 1 / 2"
  "recall [1, 0] [1, 1] = 1" "f_measure [1, 0] [1, 1] = fl (2 / 3)"
  by code_simp+

lemma example_metrics_rounded:
  "py_round (1 / 2) 3 = 1 / 2" "py_round 1 3 = 1" "py_round (fl (2 / 3)) 3 = fl (667 / 1000)"
  by code_simp+

lemma example_metrics_unit: "0 \<le> fl (2 / 3) \<and> fl (2 / 3) \<le> 1"
  by (rule fl_unit) simp_all

lemma unnamed_reviews_column: "find_text_column unnamed_reviews = Some []"
  by (simp add: unnamed_reviews_def find_text_column_def)

lemma unnamed_reviews_distinct: "distinct_names unnamed_reviews"
  by (simp add: unnamed_reviews_def distinct_names_def)



section \<open>The shape of the report\<close>

lemma run_full_analysis_Inr:
  "run_full_analysis lib df model = Inr report \<Longrightarrow>
   \<exists>e d g p. perform_eda lib df model = Inr e \<and> descriptive_analytics lib df model = Inr d \<and>
     diagnostic_analytics lib df model = Inr g \<and> predictive_analytics lib df model = Inr p \<and>
     report = build_report lib e d g p"
  by (auto simp: run_full_analysis_def split: sum.splits)

lemma perform_eda_returns:
  "scoring_returns lib df model \<Longrightarrow> \<exists>e. perform_eda lib df model = Inr e"
  by (auto simp: scoring_returns_def perform_eda_def Let_def split: option.splits sum.splits)

lemma descriptive_returns:
  "columns df \<noteq> [] \<Longrightarrow> scoring_returns lib df model \<Longrightarrow>
   \<exists>d. descriptive_analytics lib df model = Inr d"
  by (auto simp: scoring_returns_def descriptive_analytics_def describe_def Let_def
      split: option.splits sum.splits)

lemma diagnostic_returns:
  "scoring_returns lib df model \<Longrightarrow> \<exists>g. diagnostic_analytics lib df model = Inr g"
  by (auto simp: scoring_returns_def diagnostic_analytics_def Let_def
      split: option.splits sum.splits)

lemma descriptive_Inr_columns:
  "descriptive_analytics lib df model = Inr d \<Longrightarrow> columns df \<noteq> []"
  by (auto simp: descriptive_analytics_def describe_def split: if_splits)

lemma descriptive_Inr_scoring:
  "descriptive_analytics lib df model = Inr d \<Longrightarrow> scoring_returns lib df model"
  by (auto simp: scoring_returns_def descriptive_analytics_def describe_def Let_def
      split: option.splits sum.splits if_splits)

lemma run_full_analysis_returns_iff:
  "(\<exists>report. run_full_analysis lib df model = Inr report) \<longleftrightarrow>
     columns df \<noteq> [] \<and> scoring_returns lib df model \<and>
     (\<exists>p. predictive_analytics lib df model = Inr p)"
proof
  assume "\<exists>report. run_full_analysis lib df model = Inr report"
  then obtain d p where "descriptive_analytics lib df model = Inr d"
    and "predictive_analytics lib df model = Inr p"
    using run_full_analysis_Inr by blast
  then show "columns df \<noteq> [] \<and> scoring_returns lib df model \<and>
      (\<exists>p. predictive_analytics lib df model = Inr p)"
    using descriptive_Inr_columns descriptive_Inr_scoring by blast
next
  assume h: "columns df \<noteq> [] \<and> scoring_returns lib df model \<and>
      (\<exists>p. predictive_analytics lib df model = Inr p)"
  obtain e where e: "perform_eda lib df model = Inr e"
    using h perform_eda_returns by blast
  obtain d where d: "descriptive_analytics lib df model = Inr d"
    using h descriptive_returns by blast
  obtain g where g: "diagnostic_analytics lib df model = Inr g"
    using h diagnostic_returns by blast
  obtain p where p: "predictive_analytics lib df model = Inr p"
    using h by blast
  show "\<exists>report. run_full_analysis lib df model = Inr report"
    by (simp add: run_full_analysis_def e d g p)
qed

lemma predictive_returns:
  "(\<exists>p. predictive_analytics lib df model = Inr p) \<longleftrightarrow>
     \<not> (\<exists>c msg. truthy (find_text_column df) = Some c \<and> 10 \<le> length (column_texts lib df c) \<and>
          train lib model (column_texts lib df c) = Inl (Interrupted msg))"
proof -
  have "(\<exists>p. predictive_analytics lib df model = Inr p) \<longleftrightarrow>
      \<not> (\<exists>e. predictive_analytics lib df model = Inl e)"
    by (cases "predictive_analytics lib df model") auto
  then show ?thesis unfolding predictive_Inl by blast
qed

declare pad_correlations.simps [simp del]

lemma pad_correlations_eq:
  "pad_correlations xs = xs @ replicate (3 - length xs) placeholder_correlation"
proof (induction xs rule: pad_correlations.induct)
  case (1 formatted)
  show ?case
  proof (cases "length formatted < 3")
    case True
    then have "3 - length formatted = Suc (3 - length (formatted @ [placeholder_correlation]))"
      by simp
    then show ?thesis
      using True "1" by (subst pad_correlations.simps) (simp add: replicate_app_Cons_same)
  next
    case False
    then show ?thesis by (subst pad_correlations.simps) simp
  qed
qed

lemma pad_correlations_length: "3 \<le> length (pad_correlations xs)"
  by (simp add: pad_correlations_eq)

lemma format_correlations_length: "3 \<le> length (format_correlations insights)"
  unfolding format_correlations_def by (rule pad_correlations_length)

lemma format_correlations_padding:
  "format_correlations insights =
     take (length insights) (format_correlations insights) @
     replicate (3 - length insights) placeholder_correlation"
  by (simp add: format_correlations_def pad_correlations_eq)

lemma report_keys:
  "json_keys (build_report lib e d g p) =
     [''biOverview'', ''descriptive'', ''diagnostic'', ''predictive'', ''prescriptive'']"
  by (simp add: build_report_def json_keys_def Let_def)

lemma report_section_keys:
  "map_option json_keys (json_get (build_report lib e d g p) ''biOverview'') =
     Some [''composition'', ''trend'', ''distribution'']"
  "map_option json_keys (json_get (build_report lib e d g p) ''descriptive'') =
     Some [''kpis'', ''narrative'', ''chartData'']"
  "map_option json_keys (json_get (build_report lib e d g p) ''diagnostic'') =
     Some [''narrative'', ''correlations'']"
  "map_option json_keys (json_get (build_report lib e d g p) ''predictive'') =
     Some [''narrative'', ''forecast'', ''confidence'', ''modelExplanation'']"
  "map_option json_keys (json_get (build_report lib e d g p) ''prescriptive'') =
     Some [''narrative'', ''recommendations'', ''disclaimer'']"
  by (simp_all add: build_report_def json_keys_def json_get_def create_bi_overview_def Let_def)

lemma report_correlations:
  "json_items (json_path (build_report lib e d g p) [''diagnostic'', ''correlations'']) =
     format_correlations (correlation_insights g)"
  by (simp add: build_report_def json_get_def json_items_def Let_def)

text \<open>
  Claim C1, amended. For a valid table, one whose column names are distinct,
  \<^verbatim>\<open>run_full_analysis\<close> returns a report exactly when the table has at least one
  column, the scorer's call on the first 200 texts returns (the call is made when a text
  column is found), and the training block of the predictive stage is not left by an
  exception other than an \<^verbatim>\<open>Exception\<close>; any exception that the scorer raises in
  the first three stages is passed on to the caller. Every report it returns has
  exactly the five top-level keys biOverview, descriptive, diagnostic, predictive and
  prescriptive, each section its fixed sub-keys, and a correlations list of length at
  least 3: the formatted correlation insights followed by neutral placeholder entries
  up to three.
\<close>

theorem run_full_analysis_shape:
  assumes "distinct_names df"
  shows "((\<exists>report. run_full_analysis lib df model = Inr report) \<longleftrightarrow>
      columns df \<noteq> [] \<and> scoring_returns lib df model \<and>
      \<not> (\<exists>c msg. truthy (find_text_column df) = Some c \<and>
           10 \<le> length (column_texts lib df c) \<and>
           train lib model (column_texts lib df c) = Inl (Interrupted msg))) \<and>
   (run_full_analysis lib df model = Inr report \<longrightarrow>
      json_keys report =
        [''biOverview'', ''descriptive'', ''diagnostic'', ''predictive'', ''prescriptive''] \<and>
      map_option json_keys (json_get report ''biOverview'') =
        Some [''composition'', ''trend'', ''distribution''] \<and>
      map_option json_keys (json_get report ''descriptive'') =
        Some [''kpis'', ''narrative'', ''chartData''] \<and>
      map_option json_keys (json_get report ''diagnostic'') =
        Some [''narrative'', ''correlations''] \<and>
      map_option json_keys (json_get report ''predictive'') =
        Some [''narrative'', ''forecast'', ''confidence'', ''modelExplanation''] \<and>
      map_option json_keys (json_get report ''prescriptive'') =
        Some [''narrative'', ''recommendations'', ''disclaimer''] \<and>
      3 \<le> length (json_items (json_path report [''diagnostic'', ''correlations''])) \<and>
      (\<exists>g. diagnostic_analytics lib df model = Inr g \<and>
         json_items (json_path report [''diagnostic'', ''correlations'']) =
           take (length (correlation_insights g))
             (json_items (json_path report [''diagnostic'', ''correlations''])) @
           replicate (3 - length (correlation_insights g)) placeholder_correlation))"
proof (intro conjI impI)
  show "(\<exists>report. run_full_analysis lib df model = Inr report) \<longleftrightarrow>
      columns df \<noteq> [] \<and> scoring_returns lib df model \<and>
      \<not> (\<exists>c msg. truthy (find_text_column df) = Some c \<and>
           10 \<le> length (column_texts lib df c) \<and>
           train lib model (column_texts lib df c) = Inl (Interrupted msg))"
    unfolding run_full_analysis_returns_iff predictive_returns ..
next
  assume "run_full_analysis lib df model = Inr report"
  then obtain e d g p where g: "diagnostic_analytics lib df model = Inr g"
    and r: "report = build_report lib e d g p"
    using run_full_analysis_Inr by blast
  show "json_keys report =
      [''biOverview'', ''descriptive'', ''diagnostic'', ''predictive'', ''prescriptive'']"
    unfolding r by (rule report_keys)
  show "map_option json_keys (json_get report ''biOverview'') =
      Some [''composition'', ''trend'', ''distribution'']"
    unfolding r by (rule report_section_keys)
  show "map_option json_keys (json_get report ''descriptive'') =
      Some [''kpis'', ''narrative'', ''chartData'']"
    unfolding r by (rule report_section_keys)
  show "map_option json_keys (json_get report ''diagnostic'') =
      Some [''narrative'', ''correlations'']"
    unfolding r by (rule report_section_keys)
  show "map_option json_keys (json_get report ''predictive'') =
      Some [''narrative'', ''forecast'', ''confidence'', ''modelExplanation'']"
    unfolding r by (rule report_section_keys)
  show "map_option json_keys (json_get report ''prescriptive'') =
      Some [''narrative'', ''recommendations'', ''disclaimer'']"
    unfolding r by (rule report_section_keys)
  show "3 \<le> length (json_items (json_path report [''diagnostic'', ''correlations'']))"
    unfolding r report_correlations by (rule format_correlations_length)
  have "format_correlations (correlation_insights g) =
      take (length (correlation_insights g)) (format_correlations (correlation_insights g)) @
      replicate (3 - length (correlation_insights g)) placeholder_correlation"
    by (rule format_correlations_padding)
  then show "\<exists>g. diagnostic_analytics lib df model = Inr g \<and>
      json_items (json_path report [''diagnostic'', ''correlations'']) =
        take (length (correlation_insights g))
          (json_items (json_path report [''diagnostic'', ''correlations''])) @
        replicate (3 - length (correlation_insights g)) placeholder_correlation"
    unfolding r report_correlations using g by blast
qed

lemma report_of_Inr: "r = Inr report \<Longrightarrow> r = Inr (report_of r)"
  by (simp add: report_of_def)

lemma reviews_scoring_returns: "scoring_returns lib (reviews p n) keyword_scorer"
  by (simp add: scoring_returns_def reviews_text_column keyword_scorer_def)

lemma reviews_columns: "columns (reviews p n) \<noteq> []"
  by (simp add: reviews_def)

lemma reviews_few_rows:
  "\<not> (\<exists>c msg. truthy (find_text_column (reviews 2 1)) = Some c \<and>
        10 \<le> length (column_texts lib (reviews 2 1) c) \<and>
        train lib model (column_texts lib (reviews 2 1) c) = Inl (Interrupted msg))"
  by (simp add: reviews_text_column reviews_texts)

theorem run_full_analysis_shape_witness:
  "distinct_names (reviews 2 1) \<and>
   columns (reviews 2 1) \<noteq> [] \<and> scoring_returns example_lib (reviews 2 1) keyword_scorer \<and>
   run_full_analysis example_lib (reviews 2 1) keyword_scorer =
     Inr (report_of (run_full_analysis example_lib (reviews 2 1) keyword_scorer)) \<and>
   json_keys (report_of (run_full_analysis example_lib (reviews 2 1) keyword_scorer)) =
     [''biOverview'', ''descriptive'', ''diagnostic'', ''predictive'', ''prescriptive''] \<and>
   3 \<le> length (json_items (json_path
          (report_of (run_full_analysis example_lib (reviews 2 1) keyword_scorer))
          [''diagnostic'', ''correlations'']))"
proof -
  let ?run = "run_full_analysis example_lib (reviews 2 1) keyword_scorer"
  have h: "columns (reviews 2 1) \<noteq> [] \<and> scoring_returns example_lib (reviews 2 1) keyword_scorer"
    by (simp add: reviews_columns reviews_scoring_returns)
  note shape = run_full_analysis_shape [where df = "reviews 2 1" and lib = example_lib
      and model = keyword_scorer and report = "report_of ?run", OF reviews_distinct_names]
  from shape h reviews_few_rows [of example_lib keyword_scorer]
  have "\<exists>report. ?run = Inr report" by blast
  then have r: "?run = Inr (report_of ?run)" using report_of_Inr by blast
  with shape have "json_keys (report_of ?run) =
      [''biOverview'', ''descriptive'', ''diagnostic'', ''predictive'', ''prescriptive''] \<and>
    3 \<le> length (json_items (json_path (report_of ?run) [''diagnostic'', ''correlations'']))"
    by blast
  with h r reviews_distinct_names [of 2 1] show ?thesis by blast
qed

text \<open>
  Claim C1 as stated fails for a scorer that raises: on a table with one text row the
  exploratory stage calls the scorer, and the exception leaves \<^verbatim>\<open>run_full_analysis\<close>.
\<close>

theorem run_full_analysis_counterexample:
  "distinct_names (reviews 1 0) \<and> columns (reviews 1 0) \<noteq> [] \<and> rows (reviews 1 0) \<noteq> [] \<and>
   run_full_analysis example_lib (reviews 1 0) failing_scorer = Inl (Raised ''model unavailable'')"
  by (simp add: reviews_columns run_full_analysis_def perform_eda_def reviews_text_column
      reviews_texts failing_scorer_def reviews_distinct_names Let_def) (simp add: reviews_def)

section \<open>Prescriptive narrative and recommendations\<close>

lemma prescriptive_narrative_eq:
  "generate_narrative lib ''prescriptive'' (descriptive_data d) =
     (if 50 < negative_percentage d then intervention_narrative
      else if 70 < positive_percentage d then momentum_narrative else balanced_narrative)"
  by (simp add: generate_narrative_def descriptive_data_def no_data_def get_or_def
      intervention_narrative_def momentum_narrative_def balanced_narrative_def)

lemma prescriptive_advice_eq:
  "prescriptive_analytics [''descriptive_analytics'' \<mapsto> d] =
     (if 50 < negative_percentage d then high_negative_advice
      else if 70 < positive_percentage d then strong_positive_advice else mixed_advice)"
  by (simp add: prescriptive_analytics_def high_negative_advice_def strong_positive_advice_def
      mixed_advice_def)

lemma narratives_distinct:
  "intervention_narrative \<noteq> momentum_narrative" "intervention_narrative \<noteq> balanced_narrative"
  "momentum_narrative \<noteq> balanced_narrative"
  "high_negative_advice \<noteq> strong_positive_advice" "high_negative_advice \<noteq> mixed_advice"
  "strong_positive_advice \<noteq> mixed_advice"
  by (simp_all add: intervention_narrative_def momentum_narrative_def balanced_narrative_def
      high_negative_advice_def strong_positive_advice_def mixed_advice_def)

lemma feedback_loop_iff:
  "has_recommendation (create_recommendations d g) ''Implement Customer Feedback Loop'' ''High''
     \<longleftrightarrow> 40 < negative_percentage d"
  by (simp add: has_recommendation_def create_recommendations_def recommendation_def
      json_get_def Let_def)

lemma scale_messaging_iff:
  "has_recommendation (create_recommendations d g) ''Scale Positive Messaging'' ''Medium''
     \<longleftrightarrow> \<not> 40 < negative_percentage d"
  by (simp add: has_recommendation_def create_recommendations_def recommendation_def
      json_get_def Let_def)

lemma report_prescriptive_narrative:
  "json_path (build_report lib e d g p) [''prescriptive'', ''narrative''] =
     Some (JStr (generate_narrative lib ''prescriptive'' (descriptive_data d)))"
  by (simp add: build_report_def json_get_def Let_def)

lemma report_recommendations:
  "json_items (json_path (build_report lib e d g p) [''prescriptive'', ''recommendations'']) =
     create_recommendations d g"
  by (simp add: build_report_def json_get_def json_items_def Let_def)

text \<open>
  Claim C6, amended. In every report the prescriptive narrative is the "strategic
  intervention / high negative sentiment" text exactly when the descriptive stage's
  negative percentage exceeds 50; otherwise it is the "momentum / scale" text when the
  positive percentage exceeds 70, and the "balanced / mixed sentiment" text otherwise;
  the advisory sentence of \<^verbatim>\<open>prescriptive_analytics\<close> follows the same thresholds.
  The High-priority recommendation to implement a customer feedback loop is in the
  report exactly when the negative percentage exceeds 40, and the Medium-priority
  recommendation to scale positive messaging exactly when it does not.
\<close>

theorem prescriptive_thresholds:
  "(run_full_analysis lib df model = Inr report \<and> descriptive_analytics lib df model = Inr d \<longrightarrow>
      json_path report [''prescriptive'', ''narrative''] =
        Some (JStr (if 50 < negative_percentage d then intervention_narrative
                    else if 70 < positive_percentage d then momentum_narrative
                    else balanced_narrative)) \<and>
      (has_recommendation (json_items (json_path report [''prescriptive'', ''recommendations'']))
         ''Implement Customer Feedback Loop'' ''High'' \<longleftrightarrow> 40 < negative_percentage d) \<and>
      (has_recommendation (json_items (json_path report [''prescriptive'', ''recommendations'']))
         ''Scale Positive Messaging'' ''Medium'' \<longleftrightarrow> \<not> 40 < negative_percentage d)) \<and>
   (generate_narrative lib ''prescriptive'' (descriptive_data d) = intervention_narrative
      \<longleftrightarrow> 50 < negative_percentage d) \<and>
   (generate_narrative lib ''prescriptive'' (descriptive_data d) = momentum_narrative
      \<longleftrightarrow> \<not> 50 < negative_percentage d \<and> 70 < positive_percentage d) \<and>
   (generate_narrative lib ''prescriptive'' (descriptive_data d) = balanced_narrative
      \<longleftrightarrow> \<not> 50 < negative_percentage d \<and> \<not> 70 < positive_percentage d) \<and>
   (prescriptive_analytics [''descriptive_analytics'' \<mapsto> d] = high_negative_advice
      \<longleftrightarrow> 50 < negative_percentage d) \<and>
   (prescriptive_analytics [''descriptive_analytics'' \<mapsto> d] = strong_positive_advice
      \<longleftrightarrow> \<not> 50 < negative_percentage d \<and> 70 < positive_percentage d) \<and>
   (prescriptive_analytics [''descriptive_analytics'' \<mapsto> d] = mixed_advice
      \<longleftrightarrow> \<not> 50 < negative_percentage d \<and> \<not> 70 < positive_percentage d) \<and>
   (has_recommendation (create_recommendations d g) ''Implement Customer Feedback Loop'' ''High''
      \<longleftrightarrow> 40 < negative_percentage d) \<and>
   (has_recommendation (create_recommendations d g) ''Scale Positive Messaging'' ''Medium''
      \<longleftrightarrow> \<not> 40 < negative_percentage d)"
proof -
  have report: "run_full_analysis lib df model = Inr report \<and>
      descriptive_analytics lib df model = Inr d \<longrightarrow>
      json_path report [''prescriptive'', ''narrative''] =
        Some (JStr (if 50 < negative_percentage d then intervention_narrative
                    else if 70 < positive_percentage d then momentum_narrative
                    else balanced_narrative)) \<and>
      (has_recommendation (json_items (json_path report [''prescriptive'', ''recommendations'']))
         ''Implement Customer Feedback Loop'' ''High'' \<longleftrightarrow> 40 < negative_percentage d) \<and>
      (has_recommendation (json_items (json_path report [''prescriptive'', ''recommendations'']))
         ''Scale Positive Messaging'' ''Medium'' \<longleftrightarrow> \<not> 40 < negative_percentage d)"
  proof
    assume h: "run_full_analysis lib df model = Inr report \<and>
      descriptive_analytics lib df model = Inr d"
    then obtain e g p where r: "report = build_report lib e d g p"
      using run_full_analysis_Inr [of lib df model report] by auto
    show "json_path report [''prescriptive'', ''narrative''] =
        Some (JStr (if 50 < negative_percentage d then intervention_narrative
                    else if 70 < positive_percentage d then momentum_narrative
                    else balanced_narrative)) \<and>
      (has_recommendation (json_items (json_path report [''prescriptive'', ''recommendations'']))
         ''Implement Customer Feedback Loop'' ''High'' \<longleftrightarrow> 40 < negative_percentage d) \<and>
      (has_recommendation (json_items (json_path report [''prescriptive'', ''recommendations'']))
         ''Scale Positive Messaging'' ''Medium'' \<longleftrightarrow> \<not> 40 < negative_percentage d)"
      unfolding r report_prescriptive_narrative report_recommendations
      by (simp only: prescriptive_narrative_eq feedback_loop_iff scale_messaging_iff simp_thms)
  qed
  have narr: "(generate_narrative lib ''prescriptive'' (descriptive_data d) = intervention_narrative
      \<longleftrightarrow> 50 < negative_percentage d) \<and>
   (generate_narrative lib ''prescriptive'' (descriptive_data d) = momentum_narrative
      \<longleftrightarrow> \<not> 50 < negative_percentage d \<and> 70 < positive_percentage d) \<and>
   (generate_narrative lib ''prescriptive'' (descriptive_data d) = balanced_narrative
      \<longleftrightarrow> \<not> 50 < negative_percentage d \<and> \<not> 70 < positive_percentage d)"
    unfolding prescriptive_narrative_eq using narratives_distinct by auto
  have adv: "(prescriptive_analytics [''descriptive_analytics'' \<mapsto> d] = high_negative_advice
      \<longleftrightarrow> 50 < negative_percentage d) \<and>
   (prescriptive_analytics [''descriptive_analytics'' \<mapsto> d] = strong_positive_advice
      \<longleftrightarrow> \<not> 50 < negative_percentage d \<and> 70 < positive_percentage d) \<and>
   (prescriptive_analytics [''descriptive_analytics'' \<mapsto> d] = mixed_advice
      \<longleftrightarrow> \<not> 50 < negative_percentage d \<and> \<not> 70 < positive_percentage d)"
    unfolding prescriptive_advice_eq using narratives_distinct by auto
  show ?thesis using report narr adv feedback_loop_iff [of d g] scale_messaging_iff [of d g]
    by blast
qed

lemma descriptive_11_9:
  "descriptive_analytics example_lib (reviews 11 9) keyword_scorer =
     Inr \<lparr>positive_percentage = 55, negative_percentage = 45\<rparr>"
  by code_simp

lemma keyword_training_returns:
  "train example_lib keyword_scorer texts \<noteq> Inl (Interrupted msg)"
proof
  assume "train example_lib keyword_scorer texts = Inl (Interrupted msg)"
  from train_interrupted [OF this] show False
    by (auto simp: keyword_scorer_def example_lib_def split: if_splits)
qed

lemma report_11_9:
  "run_full_analysis example_lib (reviews 11 9) keyword_scorer =
     Inr (report_of (run_full_analysis example_lib (reviews 11 9) keyword_scorer))"
proof -
  have "\<exists>report. run_full_analysis example_lib (reviews 11 9) keyword_scorer = Inr report"
    unfolding run_full_analysis_returns_iff predictive_returns
    by (simp add: reviews_columns reviews_scoring_returns keyword_training_returns)
  then show ?thesis using report_of_Inr by blast
qed

theorem prescriptive_thresholds_witness:
  "run_full_analysis example_lib (reviews 11 9) keyword_scorer =
     Inr (report_of (run_full_analysis example_lib (reviews 11 9) keyword_scorer)) \<and>
   descriptive_analytics example_lib (reviews 11 9) keyword_scorer =
     Inr \<lparr>positive_percentage = 55, negative_percentage = 45\<rparr> \<and>
   json_path (report_of (run_full_analysis example_lib (reviews 11 9) keyword_scorer))
     [''prescriptive'', ''narrative''] = Some (JStr balanced_narrative) \<and>
   has_recommendation
     (json_items (json_path (report_of (run_full_analysis example_lib (reviews 11 9) keyword_scorer))
        [''prescriptive'', ''recommendations'']))
     ''Implement Customer Feedback Loop'' ''High''"
proof -
  let ?report = "report_of (run_full_analysis example_lib (reviews 11 9) keyword_scorer)"
  let ?d = "\<lparr>positive_percentage = 55, negative_percentage = 45\<rparr>"
  have h: "run_full_analysis example_lib (reviews 11 9) keyword_scorer = Inr ?report \<and>
      descriptive_analytics example_lib (reviews 11 9) keyword_scorer = Inr ?d"
    using report_11_9 descriptive_11_9 by blast
  from prescriptive_thresholds [of example_lib "reviews 11 9" keyword_scorer ?report ?d] h
  have "json_path ?report [''prescriptive'', ''narrative''] =
        Some (JStr (if 50 < negative_percentage ?d then intervention_narrative
                    else if 70 < positive_percentage ?d then momentum_narrative
                    else balanced_narrative)) \<and>
      (has_recommendation (json_items (json_path ?report [''prescriptive'', ''recommendations'']))
         ''Implement Customer Feedback Loop'' ''High'' \<longleftrightarrow> 40 < negative_percentage ?d)"
    by blast
  with h show ?thesis by simp
qed

text \<open>
  Claim C6 as stated fails: with 11 of 20 texts scored POSITIVE and 9 NEGATIVE the
  negative percentage is 45, which does not exceed 50, and the report still holds the
  High-priority recommendation to implement a customer feedback loop, next to the
  mixed-sentiment narrative.
\<close>

theorem feedback_loop_counterexample:
  "descriptive_analytics example_lib (reviews 11 9) keyword_scorer =
     Inr \<lparr>positive_percentage = 55, negative_percentage = 45\<rparr> \<and>
   \<not> (50::real) < 45 \<and>
   has_recommendation
     (json_items (json_path (report_of (run_full_analysis example_lib (reviews 11 9) keyword_scorer))
        [''prescriptive'', ''recommendations'']))
     ''Implement Customer Feedback Loop'' ''High'' \<and>
   json_path (report_of (run_full_analysis example_lib (reviews 11 9) keyword_scorer))
     [''prescriptive'', ''narrative''] = Some (JStr balanced_narrative)"
proof -
  let ?d = "\<lparr>positive_percentage = 55, negative_percentage = 45\<rparr>"
  obtain e d g p
    where d: "descriptive_analytics example_lib (reviews 11 9) keyword_scorer = Inr d"
    and r: "report_of (run_full_analysis example_lib (reviews 11 9) keyword_scorer) =
      build_report example_lib e d g p"
    using run_full_analysis_Inr [OF report_11_9] by metis
  from d have dd: "d = ?d" using descriptive_11_9 by simp
  have "has_recommendation (create_recommendations ?d g)
      ''Implement Customer Feedback Loop'' ''High''"
    unfolding feedback_loop_iff by simp
  moreover have "generate_narrative example_lib ''prescriptive'' (descriptive_data ?d) =
      balanced_narrative"
    unfolding prescriptive_narrative_eq by simp
  ultimately show ?thesis
    unfolding r report_prescriptive_narrative report_recommendations dd
    using descriptive_11_9 by simp
qed

section \<open>Sentiment labels\<close>

lemma same_labels_map:
  "list_all2 (\<lambda>s s'. f s = f s') xs ys \<Longrightarrow> map f xs = map f ys"
  by (induction rule: list_all2_induct) auto

lemma same_labels_filter:
  "list_all2 (\<lambda>s s'. f s = f s') xs ys \<Longrightarrow>
   map fst (filter (\<lambda>(t, s). f s = k) (zip ts xs)) =
   map fst (filter (\<lambda>(t, s). f s = k) (zip ts ys))"
proof (induction arbitrary: ts rule: list_all2_induct)
  case Nil
  then show ?case by simp
next
  case (Cons x xs y ys)
  then show ?case by (cases ts) auto
qed

lemma same_labels_binarize:
  "list_all2 (\<lambda>s s'. sentiment_label lib s = sentiment_label lib s') xs ys \<Longrightarrow>
   binarize lib xs = binarize lib ys"
  unfolding binarize_def by (induction rule: list_all2_induct) auto

lemma same_labels_cases:
  assumes "rel_sum (=) (list_all2 (\<lambda>s s'. f s = f s')) r r'"
  obtains e where "r = Inl e" and "r' = Inl e"
  | xs ys where "r = Inr xs" and "r' = Inr ys" and "list_all2 (\<lambda>s s'. f s = f s') xs ys"
  using assms by (cases r; cases r') auto

lemma upper_neutral: "upper ''NEUTRAL'' = ''NEUTRAL''"
  by (simp add: upper_def upper_char_def)

lemma sentiment_label_absent: "score ''label'' = None \<Longrightarrow> sentiment_label lib score = ''NEUTRAL''"
  by (simp add: sentiment_label_def py_str_def upper_neutral)

lemma sentiment_label_string:
  "score ''label'' = Some (PyStr l) \<Longrightarrow> sentiment_label lib score = upper l"
  by (simp add: sentiment_label_def py_str_def)

lemma eda_same_labels:
  assumes "\<forall>texts. rel_sum (=)
      (list_all2 (\<lambda>s s'. sentiment_label lib s = sentiment_label lib s')) (model texts) (model' texts)"
  shows "perform_eda lib df model = perform_eda lib df model'"
proof (cases "truthy (find_text_column df)")
  case None
  then show ?thesis by (simp add: perform_eda_def)
next
  case (Some c)
  let ?texts = "take 200 (column_texts lib df c)"
  from assms have "rel_sum (=)
      (list_all2 (\<lambda>s s'. sentiment_label lib s = sentiment_label lib s'))
      (model ?texts) (model' ?texts)" by (rule spec)
  then show ?thesis
  proof (cases rule: same_labels_cases)
    case (1 e)
    with Some show ?thesis by (simp add: perform_eda_def Let_def)
  next
    case (2 xs ys)
    have "map (sentiment_label lib) xs = map (sentiment_label lib) ys"
      using 2(3) by (rule same_labels_map)
    with 2 Some show ?thesis by (simp add: perform_eda_def Let_def)
  qed
qed

lemma descriptive_same_labels:
  assumes "\<forall>texts. rel_sum (=)
      (list_all2 (\<lambda>s s'. sentiment_label lib s = sentiment_label lib s')) (model texts) (model' texts)"
  shows "descriptive_analytics lib df model = descriptive_analytics lib df model'"
proof (cases "describe df")
  case (Inl e)
  then show ?thesis by (simp add: descriptive_analytics_def)
next
  case (Inr u)
  show ?thesis
  proof (cases "truthy (find_text_column df)")
    case None
    with Inr show ?thesis by (simp add: descriptive_analytics_def)
  next
    case (Some c)
    let ?texts = "take 200 (column_texts lib df c)"
    from assms have "rel_sum (=)
        (list_all2 (\<lambda>s s'. sentiment_label lib s = sentiment_label lib s'))
        (model ?texts) (model' ?texts)" by (rule spec)
    then show ?thesis
    proof (cases rule: same_labels_cases)
      case (1 e)
      with Inr Some show ?thesis by (simp add: descriptive_analytics_def)
    next
      case (2 xs ys)
      have "map (sentiment_label lib) xs = map (sentiment_label lib) ys"
        using 2(3) by (rule same_labels_map)
      with 2 Inr Some show ?thesis by (simp add: descriptive_analytics_def)
    qed
  qed
qed

lemma diagnostic_same_labels:
  assumes "\<forall>texts. rel_sum (=)
      (list_all2 (\<lambda>s s'. sentiment_label lib s = sentiment_label lib s')) (model texts) (model' texts)"
  shows "diagnostic_analytics lib df model = diagnostic_analytics lib df model'"
proof (cases "truthy (find_text_column df)")
  case None
  then show ?thesis by (simp only: diagnostic_analytics_def option.case)
next
  case (Some c)
  let ?texts = "take 200 (column_texts lib df c)"
  from assms have "rel_sum (=)
      (list_all2 (\<lambda>s s'. sentiment_label lib s = sentiment_label lib s'))
      (model ?texts) (model' ?texts)" by (rule spec)
  then show ?thesis
  proof (cases rule: same_labels_cases)
    case (1 e)
    then show ?thesis
      by (simp only: diagnostic_analytics_def Some option.case Let_def sum.case)
  next
    case (2 xs ys)
    have "map fst (filter (\<lambda>(t, s). sentiment_label lib s = ''NEGATIVE'')
          (zip (column_texts lib df c) xs)) =
        map fst (filter (\<lambda>(t, s). sentiment_label lib s = ''NEGATIVE'')
          (zip (column_texts lib df c) ys))"
      using 2(3) by (rule same_labels_filter)
    then show ?thesis
      by (simp only: diagnostic_analytics_def Some option.case Let_def 2(1,2) sum.case)
  qed
qed

lemma train_same_labels:
  assumes "\<forall>texts. rel_sum (=)
      (list_all2 (\<lambda>s s'. sentiment_label lib s = sentiment_label lib s')) (model texts) (model' texts)"
  shows "train lib model texts = train lib model' texts"
proof -
  from assms have "rel_sum (=)
      (list_all2 (\<lambda>s s'. sentiment_label lib s = sentiment_label lib s'))
      (model (take 500 texts)) (model' (take 500 texts))" by (rule spec)
  then show ?thesis
  proof (cases rule: same_labels_cases)
    case (1 e)
    then show ?thesis by (simp add: train_def)
  next
    case (2 xs ys)
    have "binarize lib xs = binarize lib ys" using 2(3) by (rule same_labels_binarize)
    with 2 show ?thesis by (simp add: train_def)
  qed
qed

lemma predictive_same_labels:
  assumes "\<forall>texts. rel_sum (=)
      (list_all2 (\<lambda>s s'. sentiment_label lib s = sentiment_label lib s')) (model texts) (model' texts)"
  shows "predictive_analytics lib df model = predictive_analytics lib df model'"
proof -
  have "train lib model texts = train lib model' texts" for texts
    using assms by (rule train_same_labels)
  then show ?thesis by (simp only: predictive_analytics_def)
qed


lemma upper_examples:
  "upper ''positive'' = ''POSITIVE''" "upper ''Negative'' = ''NEGATIVE''"
  "upper ''POSITIVE'' = ''POSITIVE''" "upper ''NEGATIVE'' = ''NEGATIVE''"
  by code_simp+

lemma case_scorers_agree:
  "rel_sum (=)
     (list_all2 (\<lambda>s s'. sentiment_label lib s = sentiment_label lib s'))
     (mixed_case_scorer texts) (upper_case_scorer texts)"
  by (simp add: mixed_case_scorer_def upper_case_scorer_def list_all2_map1 list_all2_map2
      list_all2_same sentiment_label_def py_str_def upper_examples upper_neutral)


section \<open>Counting tokens\<close>

lemma drop_duplicates_from_set:
  "set (drop_duplicates_from seen xs) = set xs - set seen"
  by (induction xs arbitrary: seen) auto

lemma drop_duplicates_from_distinct: "distinct (drop_duplicates_from seen xs)"
  by (induction xs arbitrary: seen) (auto simp: drop_duplicates_from_set)

lemma drop_duplicates_set [simp]: "set (drop_duplicates xs) = set xs"
  by (simp add: drop_duplicates_def drop_duplicates_from_set)

lemma drop_duplicates_distinct [simp]: "distinct (drop_duplicates xs)"
  by (simp add: drop_duplicates_def drop_duplicates_from_distinct)

lemma drop_duplicates_from_snoc:
  "drop_duplicates_from seen (xs @ [x]) =
     (if x \<in> set seen \<or> x \<in> set xs then drop_duplicates_from seen xs
      else drop_duplicates_from seen xs @ [x])"
  by (induction xs arbitrary: seen) auto

lemma drop_duplicates_snoc:
  "drop_duplicates (xs @ [x]) =
     (if x \<in> set xs then drop_duplicates xs else drop_duplicates xs @ [x])"
  by (simp add: drop_duplicates_def drop_duplicates_from_snoc)

lemma index_of_Cons: "index_of a (x # xs) = (if a = x then 0 else Suc (index_of a xs))"
  by (simp add: index_of_def)

lemma drop_duplicates_from_order:
  "sorted_wrt (\<lambda>a b. index_of a xs < index_of b xs) (drop_duplicates_from seen xs)"
proof (induction xs arbitrary: seen)
  case Nil
  then show ?case by simp
next
  case (Cons x xs)
  have shift: "sorted_wrt (\<lambda>a b. index_of a (x # xs) < index_of b (x # xs)) ys"
    if "sorted_wrt (\<lambda>a b. index_of a xs < index_of b xs) ys" and "x \<notin> set ys" for ys
    using that by (induction ys) (auto simp: index_of_Cons)
  show ?case
  proof (cases "x \<in> set seen")
    case True
    then have "x \<notin> set (drop_duplicates_from seen xs)"
      by (simp add: drop_duplicates_from_set)
    with Cons.IH [of seen] True show ?thesis by (simp add: shift)
  next
    case False
    have nx: "x \<notin> set (drop_duplicates_from (x # seen) xs)"
      by (simp add: drop_duplicates_from_set)
    then have "\<forall>b \<in> set (drop_duplicates_from (x # seen) xs). index_of x (x # xs) < index_of b (x # xs)"
      by (auto simp: index_of_Cons)
    with Cons.IH [of "x # seen"] nx False show ?thesis by (simp add: shift)
  qed
qed

lemma drop_duplicates_order:
  "sorted_wrt (\<lambda>a b. index_of a xs < index_of b xs) (drop_duplicates xs)"
  unfolding drop_duplicates_def by (rule drop_duplicates_from_order)

lemma Counter_snoc: "Counter (xs @ [x]) = counter_add x (Counter xs)"
  by (simp add: Counter_def)

lemma counter_add_counts:
  assumes "distinct ds"
  shows "counter_add x (map (\<lambda>w. (w, f w)) ds) =
     (if x \<in> set ds then map (\<lambda>w. (w, if w = x then f w + 1 else f w)) ds
      else map (\<lambda>w. (w, f w)) ds @ [(x, 1)])"
  using assms by (induction ds) auto

lemma count_list_snoc: "count_list (xs @ [x]) w = count_list xs w + (if w = x then 1 else 0)"
  by (induction xs) auto

lemma Counter_counts:
  "Counter xs = map (\<lambda>w. (w, count_list xs w)) (drop_duplicates xs)"
proof (induction xs rule: rev_induct)
  case Nil
  then show ?case by (simp add: Counter_def drop_duplicates_def)
next
  case (snoc x xs)
  show ?case
  proof (cases "x \<in> set xs")
    case True
    then show ?thesis
      by (auto simp: Counter_snoc snoc counter_add_counts drop_duplicates_snoc count_list_snoc)
  next
    case False
    then have "count_list xs x = 0" by (auto simp: count_list_0_iff)
    with False show ?thesis
      by (auto simp: Counter_snoc snoc counter_add_counts drop_duplicates_snoc count_list_snoc)
  qed
qed

lemma sorted_wrt_by_key:
  assumes "sorted (map key xs)"
    and "\<And>k. sorted_wrt R (filter (\<lambda>x. key x = k) xs)"
  shows "sorted_wrt (\<lambda>a b. key a < key b \<or> (key a = key b \<and> R a b)) xs"
  using assms
proof (induction xs)
  case Nil
  then show ?case by simp
next
  case (Cons x xs)
  have tl: "sorted_wrt (\<lambda>a b. key a < key b \<or> (key a = key b \<and> R a b)) xs"
  proof (rule Cons.IH)
    show "sorted (map key xs)" using Cons.prems(1) by simp
    show "sorted_wrt R (filter (\<lambda>x. key x = k) xs)" for k
      using Cons.prems(2) [of k] by (cases "key x = k") auto
  qed
  have "key x < key y \<or> (key x = key y \<and> R x y)" if y: "y \<in> set xs" for y
  proof (cases "key x = key y")
    case True
    have "sorted_wrt R (filter (\<lambda>z. key z = key x) (x # xs))" by (rule Cons.prems(2))
    then have "R x y" using y True by auto
    with True show ?thesis by simp
  next
    case False
    moreover have "key x \<le> key y" using Cons.prems(1) y by auto
    ultimately show ?thesis by simp
  qed
  with tl show ?case by simp
qed

lemma sorted_wrt_on_set:
  "sorted_wrt P xs \<Longrightarrow> (\<And>a b. a \<in> set xs \<Longrightarrow> b \<in> set xs \<Longrightarrow> P a b \<Longrightarrow> Q a b) \<Longrightarrow>
   sorted_wrt Q xs"
  by (induction xs) auto

lemma most_common_ranking:
  fixes toks :: "'a list"
  defines "S \<equiv> sort_key (\<lambda>item. - int (snd item)) (Counter toks)"
  shows "sorted_wrt (ranks_before toks) (map fst S)"
    and "map snd S = map (count_list toks) (map fst S)"
    and "distinct (map fst S)" and "set (map fst S) = set toks"
    and "length S = card (set toks)"
proof -
  let ?key = "\<lambda>item :: 'a \<times> nat. - int (snd item)"
  let ?C = "Counter toks"
  let ?idx = "\<lambda>a b :: 'a \<times> nat. index_of (fst a) toks < index_of (fst b) toks"
  have C: "?C = map (\<lambda>w. (w, count_list toks w)) (drop_duplicates toks)"
    by (rule Counter_counts)
  have items: "snd item = count_list toks (fst item)" if "item \<in> set S" for item
    using that unfolding S_def by (auto simp: C)
  have "sorted_wrt ?idx ?C"
    unfolding C by (simp add: sorted_wrt_map drop_duplicates_order)
  then have "sorted_wrt ?idx (filter (\<lambda>x. ?key x = k) ?C)" for k
    by (rule sorted_wrt_filter)
  then have st: "sorted_wrt ?idx (filter (\<lambda>x. ?key x = k) S)" for k
    unfolding S_def by (simp only: sort_key_stable)
  have "sorted (map ?key S)" unfolding S_def by (rule sorted_sort_key)
  then have "sorted_wrt (\<lambda>a b. ?key a < ?key b \<or> (?key a = ?key b \<and> ?idx a b)) S"
    using st by (rule sorted_wrt_by_key)
  then have "sorted_wrt (\<lambda>a b. ranks_before toks (fst a) (fst b)) S"
    by (rule sorted_wrt_on_set) (auto simp: ranks_before_def items)
  then show "sorted_wrt (ranks_before toks) (map fst S)" by (simp add: sorted_wrt_map)
  show "map snd S = map (count_list toks) (map fst S)" using items by simp
  have "mset S = mset ?C" unfolding S_def by simp
  then have "mset (map fst S) = mset (map fst ?C)" by (simp only: mset_map)
  moreover have "map fst ?C = drop_duplicates toks" by (simp add: C comp_def)
  ultimately have m: "mset (map fst S) = mset (drop_duplicates toks)" by simp
  then have "distinct (map fst S) = distinct (drop_duplicates toks)"
    by (metis mset_eq_imp_distinct_iff)
  then show "distinct (map fst S)" by simp
  have "set (map fst S) = set (drop_duplicates toks)" using m by (metis set_mset_mset)
  then show "set (map fst S) = set toks" by simp
  have "length S = length (drop_duplicates toks)" unfolding S_def by (simp add: C)
  then show "length S = card (set toks)"
    using distinct_card [OF drop_duplicates_distinct, of toks] by simp
qed

lemma split_from_tokens:
  assumes "\<forall>ch \<in> set cur. \<not> isspace ch"
  shows "\<forall>tok \<in> set (split_from cur s). tok \<noteq> [] \<and> (\<forall>ch \<in> set tok. \<not> isspace ch)"
  using assms
proof (induction s arbitrary: cur)
  case Nil
  then show ?case by simp
next
  case (Cons a s)
  show ?case
  proof (cases "isspace a")
    case True
    have "\<forall>tok \<in> set (split_from [] s). tok \<noteq> [] \<and> (\<forall>ch \<in> set tok. \<not> isspace ch)"
      by (rule Cons.IH) simp
    with True Cons.prems show ?thesis by simp
  next
    case False
    have "\<forall>tok \<in> set (split_from (cur @ [a]) s). tok \<noteq> [] \<and> (\<forall>ch \<in> set tok. \<not> isspace ch)"
      using Cons.prems False by (intro Cons.IH) simp
    with False show ?thesis by simp
  qed
qed

lemma split_tokens: "tok \<in> set (split s) \<Longrightarrow> tok \<noteq> [] \<and> (\<forall>ch \<in> set tok. \<not> isspace ch)"
  unfolding split_def using split_from_tokens [of "[]" s] by simp

lemma tokenize_split: "tokenize text = split (lower (clean_text text))"
  unfolding tokenize_def using split_tokens by (simp add: filter_id_conv)

lemma eda_word_frequency_eq:
  "truthy (find_text_column df) = Some c \<Longrightarrow> perform_eda lib df model = Inr e \<Longrightarrow>
   word_frequency e =
     most_common 15 (Counter (concat (map tokenize (take 500 (column_texts lib df c)))))"
  by (auto simp: perform_eda_def Let_def split: if_splits sum.splits)

lemma most_common_top:
  fixes toks :: "'a list" and n :: nat
  defines "words \<equiv> map fst (most_common n (Counter toks))"
  shows "map snd (most_common n (Counter toks)) = map (count_list toks) words"
    and "distinct words" and "set words \<subseteq> set toks"
    and "length words = min n (card (set toks))"
    and "sorted_wrt (ranks_before toks) words"
    and "\<forall>v \<in> set words. \<forall>w \<in> set toks - set words. ranks_before toks v w"
proof -
  let ?S = "sort_key (\<lambda>item. - int (snd item)) (Counter toks)"
  have w: "words = take n (map fst ?S)"
    by (simp add: words_def most_common_def take_map)
  have "take n (map snd ?S) = take n (map (count_list toks) (map fst ?S))"
    using most_common_ranking(2) [of toks] by (rule arg_cong)
  then show "map snd (most_common n (Counter toks)) = map (count_list toks) words"
    unfolding w most_common_def by (simp only: take_map)
  show "distinct words" unfolding w using most_common_ranking(3) [of toks] by (rule distinct_take)
  show "set words \<subseteq> set toks"
    unfolding w using most_common_ranking(4) [of toks] set_take_subset [of n "map fst ?S"]
    by simp
  show "length words = min n (card (set toks))"
    unfolding w using most_common_ranking(5) [of toks] by (simp add: min.commute)
  have srt: "sorted_wrt (ranks_before toks) (take n (map fst ?S) @ drop n (map fst ?S))"
    using most_common_ranking(1) [of toks] by simp
  then show "sorted_wrt (ranks_before toks) words"
    unfolding w by (simp only: sorted_wrt_append)
  show "\<forall>v \<in> set words. \<forall>w \<in> set toks - set words. ranks_before toks v w"
  proof (intro ballI)
    fix v u assume v: "v \<in> set words" and u: "u \<in> set toks - set words"
    have "set toks = set (take n (map fst ?S)) \<union> set (drop n (map fst ?S))"
      using most_common_ranking(4) [of toks] by (metis append_take_drop_id set_append)
    with u have "u \<in> set (drop n (map fst ?S))" unfolding w by blast
    with srt v show "ranks_before toks v u" unfolding w by (simp only: sorted_wrt_append)
  qed
qed

lemma eda_no_text_column:
  "truthy (find_text_column df) = None \<Longrightarrow>
   perform_eda lib df model =
     Inr \<lparr>total_records = length (rows df), average_text_length = 0,
          sentiment_distribution = [], word_frequency = []\<rparr>"
  by (simp add: perform_eda_def)


lemma two_comments_eda:
  "truthy (find_text_column two_comments) = Some ''text'' \<and>
   perform_eda example_lib two_comments upper_case_scorer =
     Inr \<lparr>total_records = 2, average_text_length = 4,
          sentiment_distribution = [(''NEUTRAL'', 2)],
          word_frequency = [(''b'', 2), (''a'', 2), (''c'', 1)]\<rparr>"
  by code_simp

lemma two_comments_tokens:
  "concat (map tokenize (take 500 (column_texts example_lib two_comments ''text''))) =
     [''b'', ''a'', ''a'', ''b'', ''c'']"
  by code_simp

lemma two_comments_distinct: "distinct_names two_comments"
  by (simp add: two_comments_def distinct_names_def)



section \<open>Cleaning a table\<close>

lemma normalize_value_null: "normalize_value v = Null \<longleftrightarrow> v = Null"
  by (cases v) (auto simp: normalize_value_def)

lemma clean_dataframe_columns: "columns (clean_dataframe df) = columns df"
  by (simp add: clean_dataframe_def)

lemma clean_dataframe_no_null_row:
  "r \<in> set (rows (clean_dataframe df)) \<Longrightarrow> \<not> list_all (\<lambda>c. c = Null) r"
  by (auto simp: clean_dataframe_def dropna_all_def list_all_iff normalize_value_null)

lemma clean_dataframe_rows:
  "rows (clean_dataframe df) =
     map (map normalize_value) (drop_duplicates (dropna_all (rows df))) \<and>
   distinct (drop_duplicates (dropna_all (rows df))) \<and>
   set (drop_duplicates (dropna_all (rows df))) =
     {r \<in> set (rows df). \<not> list_all (\<lambda>c. c = Null) r}"
  by (auto simp: clean_dataframe_def dropna_all_def)

text \<open>
  Claim C4 fails on the code: the duplicates are dropped before the string cells are
  normalized, so two rows that differ only in whitespace are both kept and come out
  equal.
\<close>

theorem clean_dataframe_keeps_duplicate:
  "rows (clean_dataframe spaced_twice) = [[Str ''a b'', Num 1], [Str ''a b'', Num 1]] \<and>
   \<not> distinct (rows (clean_dataframe spaced_twice))"
  by code_simp

section \<open>The descriptive percentages\<close>

lemma fl_upper:
  assumes "0 \<le> x"
  shows "fl x \<le> x + x / 10 ^ 15 + 1 / 10 ^ 15"
proof -
  have e: "\<bar>fl x - x\<bar> \<le> x / 2 ^ 53 + pow2 (- 1075)" using assms by (rule fl_error)
  have "x / 2 ^ 53 \<le> x / 10 ^ 15"
    using assms by (intro divide_left_mono) auto
  moreover have "pow2 (- 1075) \<le> pow2 (- 53)" by (rule pow2_mono) simp
  moreover have "pow2 (- 53) \<le> 1 / 10 ^ 15" by (simp add: pow2_def)
  ultimately show ?thesis using e by linarith
qed

lemma count_two_le:
  "x \<noteq> y \<Longrightarrow> count_list xs x + count_list xs y \<le> length xs"
  by (induction xs) auto

lemma count_two_less:
  "x \<noteq> y \<Longrightarrow> z \<in> set xs \<Longrightarrow> z \<noteq> x \<Longrightarrow> z \<noteq> y \<Longrightarrow>
   count_list xs x + count_list xs y < length xs"
proof (induction xs)
  case Nil
  then show ?case by simp
next
  case (Cons w xs)
  show ?case
  proof (cases "z = w")
    case True
    then show ?thesis using Cons.prems count_two_le [of x y xs] by auto
  next
    case False
    then show ?thesis using Cons by auto
  qed
qed

lemma share_bound:
  fixes a t :: nat
  assumes "1 \<le> t" and "a \<le> t"
  shows "0 \<le> fl (fl (real a / real t) * 100)"
    and "fl (fl (real a / real t) * 100) \<le> 100 * (real a / real t) + 301 / 10 ^ 15"
proof -
  let ?q = "real a / real t"
  have q: "0 \<le> ?q" "?q \<le> 1" using assms by auto
  have y0: "0 \<le> fl ?q" and y1: "fl ?q \<le> 1" using fl_unit [of ?q] q by auto
  have "fl ?q \<le> ?q + ?q / 10 ^ 15 + 1 / 10 ^ 15" using q(1) by (rule fl_upper)
  moreover have "?q / 10 ^ 15 \<le> 1 / 10 ^ 15" using q(2) by (intro divide_right_mono) auto
  ultimately have y: "fl ?q \<le> ?q + 2 / 10 ^ 15" by linarith
  have x0: "0 \<le> fl ?q * 100" using y0 by simp
  then show "0 \<le> fl (fl ?q * 100)" by (rule fl_nonneg)
  have "fl (fl ?q * 100) \<le> fl ?q * 100 + fl ?q * 100 / 10 ^ 15 + 1 / 10 ^ 15"
    using x0 by (rule fl_upper)
  moreover have "fl ?q * 100 / 10 ^ 15 \<le> 100 / 10 ^ 15" using y1 by simp
  ultimately show "fl (fl ?q * 100) \<le> 100 * ?q + 301 / 10 ^ 15" using y by linarith
qed

lemma hundredths:
  fixes a b t :: nat
  assumes "1 \<le> t" and "a + b \<le> t"
  defines "p \<equiv> round_half_even (fl (fl (real a / real t) * 100) * 10 ^ 2)"
    and "n \<equiv> round_half_even (fl (fl (real b / real t) * 100) * 10 ^ 2)"
  shows "0 \<le> p" and "0 \<le> n"
    and "real_of_int (p + n) \<le> 10000 * (real (a + b) / real t) + 1 + 1 / 10 ^ 9"
proof -
  let ?xa = "fl (fl (real a / real t) * 100)"
  let ?xb = "fl (fl (real b / real t) * 100)"
  have a: "a \<le> t" and b: "b \<le> t" using assms(2) by auto
  have "of_int 0 \<le> ?xa * 10 ^ 2" using share_bound(1) [OF assms(1) a] by simp
  then show "0 \<le> p" unfolding p_def by (rule round_half_even_ge)
  have "of_int 0 \<le> ?xb * 10 ^ 2" using share_bound(1) [OF assms(1) b] by simp
  then show "0 \<le> n" unfolding n_def by (rule round_half_even_ge)
  have "real_of_int p \<le> ?xa * 10 ^ 2 + 1 / 2"
    unfolding p_def using round_half_even_error [of "?xa * 10 ^ 2"] by linarith
  moreover have "real_of_int n \<le> ?xb * 10 ^ 2 + 1 / 2"
    unfolding n_def using round_half_even_error [of "?xb * 10 ^ 2"] by linarith
  moreover have "?xa \<le> 100 * (real a / real t) + 301 / 10 ^ 15"
    by (rule share_bound(2) [OF assms(1) a])
  moreover have "?xb \<le> 100 * (real b / real t) + 301 / 10 ^ 15"
    by (rule share_bound(2) [OF assms(1) b])
  moreover have "real (a + b) / real t = real a / real t + real b / real t"
    by (simp add: add_divide_distrib)
  ultimately show "real_of_int (p + n) \<le> 10000 * (real (a + b) / real t) + 1 + 1 / 10 ^ 9"
    by simp
qed

lemma fl_sum_bound:
  fixes p n :: int
  assumes "0 \<le> p" and "0 \<le> n" and "p + n \<le> k" and "k \<le> 20000"
  shows "fl (real_of_int p / 100) + fl (real_of_int n / 100) \<le> real_of_int k / 100 + 1 / 10 ^ 12"
proof -
  have p: "(0::real) \<le> real_of_int p / 100" and n: "(0::real) \<le> real_of_int n / 100"
    using assms by auto
  have "real_of_int p \<le> 20000" and "real_of_int n \<le> 20000" using assms by linarith+
  then have "real_of_int p / 100 / 10 ^ 15 \<le> 200 / 10 ^ 15"
    and "real_of_int n / 100 / 10 ^ 15 \<le> 200 / 10 ^ 15" by simp_all
  moreover have "real_of_int p / 100 + real_of_int n / 100 \<le> real_of_int k / 100"
    using assms(3) by (simp add: field_simps)
  ultimately show ?thesis using fl_upper [OF p] fl_upper [OF n] by simp
qed

lemma int_le_from_real:
  fixes k m :: int
  assumes "real_of_int k \<le> real_of_int m + e" and "e < 1"
  shows "k \<le> m"
proof -
  have "real_of_int k < real_of_int (m + 1)" using assms by simp
  then have "k < m + 1" by (simp only: of_int_less_iff)
  then show ?thesis by simp
qed

lemma py_round_2_eq: "py_round x 2 = fl (real_of_int (round_half_even (x * 10 ^ 2)) / 100)"
  by (simp add: py_round_def)

lemma percentages_bound:
  fixes labels :: "string list"
  defines "tot \<equiv> (if length labels = 0 then 1 else length labels)"
  defines "ppos \<equiv> py_round (fl (fl (real (count_list labels ''POSITIVE'') / real tot) * 100)) 2"
    and "pneg \<equiv> py_round (fl (fl (real (count_list labels ''NEGATIVE'') / real tot) * 100)) 2"
  shows "\<exists>p n. 0 \<le> p \<and> 0 \<le> n \<and> p + n \<le> 10001 \<and>
           ppos = fl (real_of_int p / 100) \<and> pneg = fl (real_of_int n / 100)"
    and "length labels \<le> 200 \<Longrightarrow>
         \<exists>label \<in> set labels. label \<noteq> ''POSITIVE'' \<and> label \<noteq> ''NEGATIVE'' \<Longrightarrow>
         ppos + pneg < 100"
proof -
  let ?a = "count_list labels ''POSITIVE''"
  let ?b = "count_list labels ''NEGATIVE''"
  let ?p = "round_half_even (fl (fl (real ?a / real tot) * 100) * 10 ^ 2)"
  let ?n = "round_half_even (fl (fl (real ?b / real tot) * 100) * 10 ^ 2)"
  have t: "1 \<le> tot" by (cases labels) (simp_all add: tot_def)
  have ab: "?a + ?b \<le> length labels" by (rule count_two_le) simp
  then have abt: "?a + ?b \<le> tot" by (simp add: tot_def)
  note h = hundredths [OF t abt]
  have ppos: "ppos = fl (real_of_int ?p / 100)" and pneg: "pneg = fl (real_of_int ?n / 100)"
    by (simp_all add: ppos_def pneg_def py_round_2_eq)
  have "real (?a + ?b) / real tot \<le> 1" using abt t by simp
  then have "real_of_int (?p + ?n) \<le> 10001 + 1 / 10 ^ 9" using h(3) by linarith
  then have "?p + ?n \<le> 10001" by (intro int_le_from_real [where e = "1 / 10 ^ 9"]) auto
  with h(1,2) ppos pneg
  show "\<exists>p n. 0 \<le> p \<and> 0 \<le> n \<and> p + n \<le> 10001 \<and>
           ppos = fl (real_of_int p / 100) \<and> pneg = fl (real_of_int n / 100)"
    by blast
  show "ppos + pneg < 100"
    if len: "length labels \<le> 200"
      and other: "\<exists>label \<in> set labels. label \<noteq> ''POSITIVE'' \<and> label \<noteq> ''NEGATIVE''"
  proof -
    from other obtain z where "z \<in> set labels" "z \<noteq> ''POSITIVE''" "z \<noteq> ''NEGATIVE''"
      by blast
    then have lt: "?a + ?b < length labels" by (intro count_two_less) auto
    then have tl: "tot = length labels" by (auto simp: tot_def)
    have "real (?a + ?b) \<le> real tot - 1" using lt tl by linarith
    then have "real (?a + ?b) / real tot \<le> (real tot - 1) / real tot"
      using t by (intro divide_right_mono) auto
    also have "\<dots> = 1 - 1 / real tot" using t by (simp add: field_simps)
    also have "\<dots> \<le> 1 - 1 / 200"
    proof -
      have "real tot \<le> 200" using len tl by simp
      then have "1 / 200 \<le> 1 / real tot" using t by (intro divide_left_mono) auto
      then show ?thesis by linarith
    qed
    finally have "real (?a + ?b) / real tot \<le> 1 - 1 / 200" .
    then have "real_of_int (?p + ?n) \<le> 9951 + 1 / 10 ^ 9" using h(3) by linarith
    then have "?p + ?n \<le> 9951" by (intro int_le_from_real [where e = "1 / 10 ^ 9"]) auto
    then have "fl (real_of_int ?p / 100) + fl (real_of_int ?n / 100) \<le>
        real_of_int 9951 / 100 + 1 / 10 ^ 12"
      using h(1,2) by (intro fl_sum_bound) auto
    then show ?thesis unfolding ppos pneg by simp
  qed
qed

lemma round_half_even_zero [simp]: "round_half_even 0 = 0"
  by (simp add: round_half_even_def)

lemma py_round_zero [simp]: "py_round 0 n = 0"
  by (simp add: py_round_def)

lemma descriptive_no_text:
  "descriptive_analytics lib df model = Inr d \<Longrightarrow> truthy (find_text_column df) = None \<Longrightarrow>
   positive_percentage d = 0 \<and> negative_percentage d = 0"
  by (auto simp: descriptive_analytics_def split: sum.splits)

lemma descriptive_scored:
  assumes "descriptive_analytics lib df model = Inr d"
    and "truthy (find_text_column df) = Some c"
    and "model (take 200 (column_texts lib df c)) = Inr scores"
  shows "positive_percentage d =
      py_round (fl (fl (real (count_list (map (sentiment_label lib) scores) ''POSITIVE'') /
        real (if length (map (sentiment_label lib) scores) = 0 then 1
              else length (map (sentiment_label lib) scores))) * 100)) 2"
    and "negative_percentage d =
      py_round (fl (fl (real (count_list (map (sentiment_label lib) scores) ''NEGATIVE'') /
        real (if length (map (sentiment_label lib) scores) = 0 then 1
              else length (map (sentiment_label lib) scores))) * 100)) 2"
  using assms by (auto simp: descriptive_analytics_def Let_def split: sum.splits)

lemma zero_hundredths:
  "\<exists>p n. 0 \<le> p \<and> 0 \<le> n \<and> p + n \<le> 10001 \<and>
     (0::real) = fl (real_of_int p / 100) \<and> (0::real) = fl (real_of_int n / 100)"
  by (intro exI [of _ 0]) simp

text \<open>
  Claim C5, amended. Whenever the descriptive stage returns, its two percentages are
  the doubles nearest to \<open>p / 100\<close> and \<open>n / 100\<close> for whole numbers \<open>p\<close>, \<open>n\<close>
  that are not negative and sum to at most 10001: read as two-decimal numbers they sum
  to at most 100.01. Both are 0 when no text column is found. Otherwise each is the
  count of its label among the scored labels divided by their number, times 100, all in
  double arithmetic, rounded to 2 decimals; and when the scorer returns at most 200
  scores of which one is neither POSITIVE nor NEGATIVE, the sum is below 100.
\<close>

theorem descriptive_percentages:
  "descriptive_analytics lib df model = Inr d \<longrightarrow>
     (\<exists>p n. 0 \<le> p \<and> 0 \<le> n \<and> p + n \<le> 10001 \<and>
        positive_percentage d = fl (real_of_int p / 100) \<and>
        negative_percentage d = fl (real_of_int n / 100)) \<and>
     (truthy (find_text_column df) = None \<longrightarrow>
        positive_percentage d = 0 \<and> negative_percentage d = 0) \<and>
     (truthy (find_text_column df) = Some c \<and>
      model (take 200 (column_texts lib df c)) = Inr scores \<longrightarrow>
        positive_percentage d =
          py_round (fl (fl (real (count_list (map (sentiment_label lib) scores) ''POSITIVE'') /
            real (max 1 (length scores))) * 100)) 2 \<and>
        negative_percentage d =
          py_round (fl (fl (real (count_list (map (sentiment_label lib) scores) ''NEGATIVE'') /
            real (max 1 (length scores))) * 100)) 2 \<and>
        (length scores \<le> 200 \<and>
         (\<exists>s \<in> set scores. sentiment_label lib s \<noteq> ''POSITIVE'' \<and>
                             sentiment_label lib s \<noteq> ''NEGATIVE'') \<longrightarrow>
           positive_percentage d + negative_percentage d < 100))"
proof (intro impI conjI)
  assume d: "descriptive_analytics lib df model = Inr d"
  show "\<exists>p n. 0 \<le> p \<and> 0 \<le> n \<and> p + n \<le> 10001 \<and>
        positive_percentage d = fl (real_of_int p / 100) \<and>
        negative_percentage d = fl (real_of_int n / 100)"
  proof (cases "truthy (find_text_column df)")
    case None
    with d show ?thesis using descriptive_no_text zero_hundredths by metis
  next
    case (Some c')
    with d obtain scores' where "model (take 200 (column_texts lib df c')) = Inr scores'"
      by (auto simp: descriptive_analytics_def split: sum.splits)
    with d Some show ?thesis
      using descriptive_scored [of lib df model d c' scores']
        percentages_bound(1) [of "map (sentiment_label lib) scores'"]
      by simp
  qed
next
  assume "descriptive_analytics lib df model = Inr d" and "truthy (find_text_column df) = None"
  then show "positive_percentage d = 0" and "negative_percentage d = 0"
    using descriptive_no_text by blast+
next
  assume d: "descriptive_analytics lib df model = Inr d"
    and h: "truthy (find_text_column df) = Some c \<and>
      model (take 200 (column_texts lib df c)) = Inr scores"
  have m: "(if length (map (sentiment_label lib) scores) = 0 then 1
            else length (map (sentiment_label lib) scores)) = max 1 (length scores)"
    by (cases scores) (simp_all add: max_def)
  note eq = descriptive_scored [of lib df model d c scores, unfolded m]
  show pp: "positive_percentage d =
      py_round (fl (fl (real (count_list (map (sentiment_label lib) scores) ''POSITIVE'') /
        real (max 1 (length scores))) * 100)) 2"
    using d h eq by blast
  show np: "negative_percentage d =
      py_round (fl (fl (real (count_list (map (sentiment_label lib) scores) ''NEGATIVE'') /
        real (max 1 (length scores))) * 100)) 2"
    using d h eq by blast
  assume o: "length scores \<le> 200 \<and>
    (\<exists>s \<in> set scores. sentiment_label lib s \<noteq> ''POSITIVE'' \<and> sentiment_label lib s \<noteq> ''NEGATIVE'')"
  have "length (map (sentiment_label lib) scores) \<le> 200" using o by simp
  moreover have "\<exists>label \<in> set (map (sentiment_label lib) scores).
      label \<noteq> ''POSITIVE'' \<and> label \<noteq> ''NEGATIVE''" using o by auto
  ultimately show "positive_percentage d + negative_percentage d < 100"
    unfolding pp np m [symmetric] by (rule percentages_bound(2))
qed

lemma three_reviews_scored:
  "truthy (find_text_column three_reviews) = Some ''text'' \<and>
   upper_case_scorer (take 200 (column_texts example_lib three_reviews ''text'')) =
     Inr [[''label'' \<mapsto> PyStr ''POSITIVE''], [''label'' \<mapsto> PyStr ''NEGATIVE''],
          [''label'' \<mapsto> PyStr ''NEUTRAL'']]"
  by (simp add: three_reviews_def find_text_column_def truthy_def column_texts_def index_of_def
      cell_at_def as_text_def upper_case_scorer_def)

lemma three_reviews_descriptive:
  "descriptive_analytics example_lib three_reviews upper_case_scorer =
     Inr \<lparr>positive_percentage = fl (3333 / 100), negative_percentage = fl (3333 / 100)\<rparr>"
  by code_simp

theorem descriptive_percentages_witness:
  "descriptive_analytics example_lib three_reviews upper_case_scorer =
     Inr \<lparr>positive_percentage = fl (3333 / 100), negative_percentage = fl (3333 / 100)\<rparr> \<and>
   truthy (find_text_column three_reviews) = Some ''text'' \<and>
   upper_case_scorer (take 200 (column_texts example_lib three_reviews ''text'')) =
     Inr [[''label'' \<mapsto> PyStr ''POSITIVE''], [''label'' \<mapsto> PyStr ''NEGATIVE''],
          [''label'' \<mapsto> PyStr ''NEUTRAL'']] \<and>
   sentiment_label example_lib [''label'' \<mapsto> PyStr ''NEUTRAL''] \<noteq> ''POSITIVE'' \<and>
   sentiment_label example_lib [''label'' \<mapsto> PyStr ''NEUTRAL''] \<noteq> ''NEGATIVE'' \<and>
   fl (3333 / 100) + fl (3333 / 100) < 100"
proof -
  let ?d = "\<lparr>positive_percentage = fl (3333 / 100), negative_percentage = fl (3333 / 100)\<rparr>"
  let ?scores = "[[''label'' \<mapsto> PyStr ''POSITIVE''], [''label'' \<mapsto> PyStr ''NEGATIVE''],
      [''label'' \<mapsto> PyStr ''NEUTRAL'']]"
  have n: "sentiment_label example_lib [''label'' \<mapsto> PyStr ''NEUTRAL''] \<noteq> ''POSITIVE'' \<and>
      sentiment_label example_lib [''label'' \<mapsto> PyStr ''NEUTRAL''] \<noteq> ''NEGATIVE''"
    by (simp add: sentiment_label_def py_str_def upper_neutral)
  then have o: "length ?scores \<le> 200 \<and>
      (\<exists>s \<in> set ?scores. sentiment_label example_lib s \<noteq> ''POSITIVE'' \<and>
                           sentiment_label example_lib s \<noteq> ''NEGATIVE'')"
    by simp
  from descriptive_percentages [of example_lib three_reviews upper_case_scorer ?d "''text''" ?scores]
    three_reviews_descriptive three_reviews_scored o
  have "positive_percentage ?d + negative_percentage ?d < 100" by blast
  then show ?thesis using three_reviews_descriptive three_reviews_scored n by simp
qed

text \<open>
  Claim C5 as stated fails in double arithmetic: of 160 scored texts, 49 POSITIVE and 111
  NEGATIVE, the shares 49/160 and 111/160 times 100 are computed as
  30.625000000000004 and 69.375, which round to 30.63 and 69.38; their sum exceeds 100.
\<close>

theorem descriptive_percentages_counterexample:
  "descriptive_analytics example_lib (reviews 49 111) keyword_scorer =
     Inr \<lparr>positive_percentage = fl (3063 / 100), negative_percentage = fl (6938 / 100)\<rparr> \<and>
   100 < fl (3063 / 100) + fl (6938 / 100)"
  by code_simp

section \<open>Correlation insights\<close>

lemma column_pairs_length: "length (column_pairs xs) = length xs * (length xs - 1) div 2"
proof (induction xs)
  case Nil
  then show ?case by simp
next
  case (Cons a xs)
  have "length xs + length xs * (length xs - 1) div 2 = Suc (length xs) * length xs div 2"
  proof (cases "length xs")
    case 0
    then show ?thesis by simp
  next
    case (Suc n)
    have "Suc n * n + 2 * Suc n = Suc (Suc n) * Suc n" by simp
    then have "(Suc n * n + Suc n * 2) div 2 = Suc (Suc n) * Suc n div 2" by (simp add: mult.commute)
    then show ?thesis using Suc by simp
  qed
  with Cons show ?case by simp
qed

lemma column_pairs_nth:
  "i < j \<Longrightarrow> j < length xs \<Longrightarrow> (xs ! i, xs ! j) \<in> set (column_pairs xs)"
proof (induction xs arbitrary: i j)
  case Nil
  then show ?case by simp
next
  case (Cons a xs)
  show ?case
  proof (cases i)
    case 0
    then obtain j' where "j = Suc j'" using Cons.prems(1) by (cases j) auto
    with 0 Cons.prems show ?thesis by simp
  next
    case (Suc i')
    then obtain j' where j: "j = Suc j'" using Cons.prems(1) by (cases j) auto
    have "(xs ! i', xs ! j') \<in> set (column_pairs xs)"
      using Cons.IH [of i' j'] Cons.prems Suc j by simp
    with Suc j show ?thesis by simp
  qed
qed

lemma correlation_pairs_length:
  "length (correlation_pairs cols) = length cols * (length cols - 1) div 2"
  by (simp add: correlation_pairs_def column_pairs_length)

lemma correlation_pairs_nth:
  assumes "i < j" and "j < length cols"
  shows "(\<bar>corr (snd (cols ! i)) (snd (cols ! j))\<bar>, fst (cols ! i), fst (cols ! j),
          corr (snd (cols ! i)) (snd (cols ! j))) \<in> set (correlation_pairs cols)"
proof -
  obtain a xs b ys where ci: "cols ! i = (a, xs)" and cj: "cols ! j = (b, ys)"
    by (metis surj_pair)
  have "(cols ! i, cols ! j) \<in> set (column_pairs cols)" using assms by (rule column_pairs_nth)
  then have "((a, xs), (b, ys)) \<in> set (column_pairs cols)" by (simp only: ci cj)
  then have "(\<bar>corr xs ys\<bar>, a, b, corr xs ys) \<in> set (correlation_pairs cols)"
    by (force simp: correlation_pairs_def Let_def)
  then show ?thesis by (simp add: ci cj)
qed

lemma correlation_pairs_abs:
  "p \<in> set (correlation_pairs cols) \<Longrightarrow> fst p = \<bar>snd (snd (snd p))\<bar>"
  by (auto simp: correlation_pairs_def Let_def)

lemma sorted_reverse_desc: "sorted_wrt (\<lambda>p q. q \<le> p) (sorted_reverse xs)"
  by (simp add: sorted_reverse_def sorted_wrt_rev)

lemma sorted_reverse_mset [simp]: "mset (sorted_reverse xs) = mset xs"
  by (simp add: sorted_reverse_def)

lemma fst_le_prod: "q \<le> p \<Longrightarrow> fst q \<le> fst (p :: 'a::linorder \<times> 'b::linorder)"
  by (auto simp: less_eq_prod_def)

lemma sum_list_pos:
  fixes f :: "'a \<Rightarrow> real"
  assumes "\<forall>x \<in> set xs. 0 \<le> f x" and "a \<in> set xs" and "0 < f a"
  shows "0 < sum_list (map f xs)"
  using assms
proof (induction xs)
  case Nil
  then show ?case by simp
next
  case (Cons x xs)
  have tl: "0 \<le> sum_list (map f xs)" using Cons.prems(1) by (intro sum_list_nonneg) auto
  show ?case
  proof (cases "a = x")
    case True
    then show ?thesis using Cons.prems(3) tl by simp
  next
    case False
    then have "0 < sum_list (map f xs)" using Cons by auto
    moreover have "0 \<le> f x" using Cons.prems(1) by simp
    ultimately show ?thesis by simp
  qed
qed

lemma sum_list_affine:
  fixes obs :: "(real \<times> real) list"
  assumes "\<forall>(x, y) \<in> set obs. y = k * x + c"
  shows "sum_list (map snd obs) = k * sum_list (map fst obs) + c * real (length obs)"
  using assms by (induction obs) (auto simp: algebra_simps)

lemma pearson_collinear:
  fixes obs :: "(real \<times> real) list"
  assumes lin: "\<forall>(x, y) \<in> set obs. y = k * x + c"
    and k: "k \<noteq> 0"
    and var: "\<exists>p \<in> set obs. \<exists>q \<in> set obs. fst p \<noteq> fst q"
  shows "pearson obs = Some (sgn k)"
proof -
  let ?mx = "mean (map fst obs)"
  let ?my = "mean (map snd obs)"
  let ?d = "\<lambda>(x, y). (x - ?mx) ^ 2 :: real"
  let ?sxx = "sum_list (map ?d obs)"
  have ne: "obs \<noteq> []" using var by auto
  then have n: "0 < real (length obs)" by simp
  have my: "?my = k * ?mx + c"
    using n by (simp add: mean_def sum_list_affine [OF lin] field_simps)
  have dev: "y - ?my = k * (x - ?mx)" if "(x, y) \<in> set obs" for x y
    using lin that my by (auto simp: algebra_simps)
  have "map (\<lambda>(x, y). (x - ?mx) * (y - ?my)) obs = map (\<lambda>p. k * ?d p) obs"
    by (rule map_cong) (auto simp: dev power2_eq_square)
  then have "sum_list (map (\<lambda>(x, y). (x - ?mx) * (y - ?my)) obs) =
      sum_list (map (\<lambda>p. k * ?d p) obs)"
    by (rule arg_cong)
  also have "\<dots> = k * ?sxx" by (rule sum_list_const_mult)
  finally have sxy: "sum_list (map (\<lambda>(x, y). (x - ?mx) * (y - ?my)) obs) = k * ?sxx" .
  have "map (\<lambda>(x, y). (y - ?my) ^ 2) obs = map (\<lambda>p. k ^ 2 * ?d p) obs"
    by (rule map_cong) (auto simp: dev power_mult_distrib)
  then have "sum_list (map (\<lambda>(x, y). (y - ?my) ^ 2) obs) =
      sum_list (map (\<lambda>p. k ^ 2 * ?d p) obs)"
    by (rule arg_cong)
  also have "\<dots> = k ^ 2 * ?sxx" by (rule sum_list_const_mult)
  finally have syy: "sum_list (map (\<lambda>(x, y). (y - ?my) ^ 2) obs) = k ^ 2 * ?sxx" .
  obtain p where p: "p \<in> set obs" and pm: "fst p \<noteq> ?mx" using var by metis
  have "0 < ?d p" using pm by (cases p) simp
  then have pos: "0 < ?sxx" using p by (intro sum_list_pos [where a = p]) auto
  have "sqrt (?sxx * (k ^ 2 * ?sxx)) = sqrt ((\<bar>k\<bar> * ?sxx) ^ 2)"
    by (simp add: power2_eq_square algebra_simps)
  also have "\<dots> = \<bar>k\<bar> * ?sxx" using pos by (simp add: abs_mult)
  finally have root: "sqrt (?sxx * (k ^ 2 * ?sxx)) = \<bar>k\<bar> * ?sxx" .
  have nz: "?sxx * (k ^ 2 * ?sxx) \<noteq> 0" using pos k by simp
  have "k * ?sxx / (\<bar>k\<bar> * ?sxx) = sgn k" using pos k by (simp add: sgn_real_def)
  then show ?thesis
    unfolding pearson_def Let_def sxy syy root using nz by simp
qed

lemma diagnostic_correlations:
  "diagnostic_analytics lib df model = Inr g \<Longrightarrow>
   correlation_insights g = correlation_insights_of df"
  by (auto simp: diagnostic_analytics_def Let_def split: option.splits sum.splits)

lemma ranked_by_magnitude:
  "sorted_wrt (\<lambda>p q. \<bar>snd (snd (snd q))\<bar> \<le> \<bar>snd (snd (snd p))\<bar>)
     (sorted_reverse (correlation_pairs cols))"
proof -
  let ?ranked = "sorted_reverse (correlation_pairs cols)"
  have "set ?ranked = set (correlation_pairs cols)"
    using sorted_reverse_mset [of "correlation_pairs cols"] by (metis set_mset_mset)
  then have m: "fst p = \<bar>snd (snd (snd p))\<bar>" if "p \<in> set ?ranked" for p
    using that correlation_pairs_abs by blast
  have "sorted_wrt (\<lambda>p q. q \<le> p) ?ranked" by (rule sorted_reverse_desc)
  then show ?thesis
  proof (rule sorted_wrt_on_set)
    fix p q assume "p \<in> set ?ranked" "q \<in> set ?ranked" "q \<le> p"
    then show "\<bar>snd (snd (snd q))\<bar> \<le> \<bar>snd (snd (snd p))\<bar>"
      using m [of p] m [of q] fst_le_prod [of q p] by simp
  qed
qed

lemma py_round_unit_values: "py_round 1 3 = 1" "py_round (- 1) 3 = - 1"
  by code_simp+

lemma py_round_sgn: "k \<noteq> 0 \<Longrightarrow> py_round (sgn k) 3 = sgn k"
  by (cases "0 < k") (simp_all add: sgn_real_def py_round_unit_values)

lemma collinear_insight:
  assumes "numeric_columns df = [(col_a, xs), (col_b, ys)]"
    and "\<forall>(x, y) \<in> set (complete_obs xs ys). y = k * x + c" and "k \<noteq> 0"
    and "\<exists>p \<in> set (complete_obs xs ys). \<exists>q \<in> set (complete_obs xs ys). fst p \<noteq> fst q"
  shows "correlation_insights_of df = [(col_a @ '' vs '' @ col_b, sgn k)]"
proof -
  have "pearson (complete_obs xs ys) = Some (sgn k)"
    using assms(2,3,4) by (rule pearson_collinear)
  then have "corr xs ys = sgn k" by (simp add: corr_def)
  then show ?thesis
    using assms(1,3)
    by (simp add: correlation_insights_of_def correlation_pairs_def sorted_reverse_def
        py_round_sgn Let_def)
qed


lemma doubled_columns_numeric:
  "numeric_columns doubled_columns =
     [(''col_a'', [Some 1, Some 2, Some 3]), (''col_b'', [Some 2, Some 4, Some 6])] \<and>
   complete_obs [Some 1, Some 2, Some 3] [Some 2, Some 4, Some 6] = [(1, 2), (2, 4), (3, 6)]"
  by code_simp



end
